theory Spec2Isabelle
  imports Complex_Main "HOL-Library.Sublist"
begin

section \<open>Logseq tools: a shallow embedding of \<open>src/index.ts\<close>\<close>

text \<open>
  The embedding follows the TypeScript source function by function.  Conventions:
  \<^item> a JavaScript string is a \<^typ>\<open>string\<close>, a list of code units below 256 (the
    characters U+0000 to U+00FF); \<open>toLowerCase\<close> and \<open>trim\<close> are those of ECMA-262 on
    these characters;
  \<^item> a \<open>Date\<close> object is its time value, an \<^typ>\<open>int\<close> of milliseconds since the epoch
    in UTC; the local time zone is a parameter, any assignment of offsets to instants
    (daylight-saving transitions included), and the getters and setters of \<open>Date\<close> go
    through \<open>LocalTime\<close> and \<open>UTC\<close> as in ECMA-262, whose calendar functions are used
    (\<open>Day\<close>, \<open>DayFromYear\<close>, \<open>MakeDay\<close>, ...); the bound of \<open>8.64e15\<close> ms on time values
    is not modelled;
  \<^item> a setter that mutates a \<open>Date\<close> returns the new time value;
  \<^item> a value of type \<open>any\<close> that comes from the remote API is a JSON value, with
    integral numbers;
  \<^item> a thrown exception is the \<open>Inl\<close> of a sum; a handler gives the log of its remote
    calls with the text of its answer, or with the exception that leaves it.
\<close>

subsection \<open>Errors\<close>

datatype error = Error string | TypeError string | SyntaxError string

fun message :: "error \<Rightarrow> string" where
  "message (Error m) = m"
| "message (TypeError m) = m"
| "message (SyntaxError m) = m"

text \<open>The error of reading a property of \<open>null\<close> or \<open>undefined\<close>.  The wording of the
  messages of \<open>TypeError\<close> and \<open>SyntaxError\<close> is the engine's (here V8's).\<close>

definition cannot_read :: "string \<Rightarrow> string \<Rightarrow> error" where
  "cannot_read what key =
     TypeError (''Cannot read properties of '' @ what @ '' (reading '' @ [CHR 0x27] @ key
                @ [CHR 0x27] @ '')'')"

subsection \<open>Strings\<close>

definition digit_char :: "nat \<Rightarrow> char" where
  "digit_char d = ''0123456789'' ! d"

fun digits :: "nat \<Rightarrow> string" where
  "digits n = (if n < 10 then [digit_char n] else digits (n div 10) @ [digit_char (n mod 10)])"

declare digits.simps [simp del]

text \<open>\<open>String(n)\<close> for an integral number \<open>n\<close>.\<close>

definition show_int :: "int \<Rightarrow> string" where
  "show_int n = (if n < 0 then ''-'' @ digits (nat (- n)) else digits (nat n))"

text \<open>
  The letters that \<open>toLowerCase\<close> changes, among the characters below U+0100: the 26
  capitals of ASCII, and the capitals U+00C0 to U+00DE (the sign U+00D7 is no letter),
  each 32 below its small letter.
\<close>

definition case_table :: "(char \<times> char) list" where
  "case_table =
        (zip (''ABCDEFGHIJKLMNOPQRSTUVWXYZ''
              @ [CHR 0xC0, CHR 0xC1, CHR 0xC2, CHR 0xC3, CHR 0xC4, CHR 0xC5, CHR 0xC6, CHR 0xC7,
                 CHR 0xC8, CHR 0xC9, CHR 0xCA, CHR 0xCB, CHR 0xCC, CHR 0xCD, CHR 0xCE, CHR 0xCF,
                 CHR 0xD0, CHR 0xD1, CHR 0xD2, CHR 0xD3, CHR 0xD4, CHR 0xD5, CHR 0xD6, CHR 0xD8,
                 CHR 0xD9, CHR 0xDA, CHR 0xDB, CHR 0xDC, CHR 0xDD, CHR 0xDE])
             (''abcdefghijklmnopqrstuvwxyz''
              @ [CHR 0xE0, CHR 0xE1, CHR 0xE2, CHR 0xE3, CHR 0xE4, CHR 0xE5, CHR 0xE6, CHR 0xE7,
                 CHR 0xE8, CHR 0xE9, CHR 0xEA, CHR 0xEB, CHR 0xEC, CHR 0xED, CHR 0xEE, CHR 0xEF,
                 CHR 0xF0, CHR 0xF1, CHR 0xF2, CHR 0xF3, CHR 0xF4, CHR 0xF5, CHR 0xF6, CHR 0xF8,
                 CHR 0xF9, CHR 0xFA, CHR 0xFB, CHR 0xFC, CHR 0xFD, CHR 0xFE]))"

definition lower_char :: "char \<Rightarrow> char" where
  "lower_char c = (case map_of case_table c of Some l \<Rightarrow> l | None \<Rightarrow> c)"

definition toLowerCase :: "string \<Rightarrow> string" where
  "toLowerCase s = map lower_char s"

text \<open>
  The white space and line terminators that \<open>trim\<close> strips, among the characters below
  U+0100: tab, line feed, vertical tab, form feed, carriage return, space and the
  no-break space U+00A0.
\<close>

definition is_space :: "char \<Rightarrow> bool" where
  "is_space c =
     (c \<in> set [CHR '' '', CHR 0x09, CHR 0x0A, CHR 0x0B, CHR 0x0C, CHR 0x0D, CHR 0xA0])"

definition trim :: "string \<Rightarrow> string" where
  "trim s = rev (dropWhile is_space (rev (dropWhile is_space s)))"

text \<open>\<open>s.repeat(n)\<close>.\<close>

fun repeat :: "string \<Rightarrow> nat \<Rightarrow> string" where
  "repeat s 0 = []"
| "repeat s (Suc n) = s @ repeat s n"

subsection \<open>Block trees and \<open>processBlocks\<close>\<close>

text \<open>
  A node of the block tree: its textual content (empty when the field is absent, both
  are falsy in the source) and its children (empty when the field is absent).
\<close>

datatype block = Block (content_of: string) (children_of: "block list")

fun processBlocks :: "block list \<Rightarrow> nat \<Rightarrow> string" where
  "processBlocks [] indent = []"
| "processBlocks (Block c ch # bs) indent =
     (if c \<noteq> []
      then repeat ''  '' indent @ ''- '' @ c @ ''\<newline>'' @
           (if length ch > 0 then processBlocks ch (indent + 1) else [])
      else [])
     @ processBlocks bs indent"

text \<open>
  The rendering as the specification words it, by node: the bullet line of a node at a
  depth, and the nodes that show, in pre-order.  \<open>shown_nodes\<close> skips the subtree of a
  node without content; \<open>spec_nodes\<close> is the reading of the specification, where such a
  node gives no line but its children still render.
\<close>

definition bullet :: "nat \<times> string \<Rightarrow> string" where
  "bullet p = replicate (2 * fst p) CHR '' '' @ ''- '' @ snd p @ ''\<newline>''"

fun shown_nodes :: "nat \<Rightarrow> block \<Rightarrow> (nat \<times> string) list" where
  "shown_nodes d (Block c ch) =
     (if c = [] then [] else (d, c) # concat (map (shown_nodes (Suc d)) ch))"

fun spec_nodes :: "nat \<Rightarrow> block \<Rightarrow> (nat \<times> string) list" where
  "spec_nodes d (Block c ch) =
     (if c = [] then [] else [(d, c)]) @ concat (map (spec_nodes (Suc d)) ch)"

subsection \<open>Block-tree rendering: properties\<close>

lemma repeat_two_spaces: "repeat ''  '' n = replicate (2 * n) CHR '' ''"
  by (induction n) simp_all

lemma processBlocks_append:
  "processBlocks (xs @ ys) d = processBlocks xs d @ processBlocks ys d"
  by (induction xs d rule: processBlocks.induct) simp_all

lemma processBlocks_node:
  "c \<noteq> [] \<Longrightarrow>
   processBlocks (Block c ch # bs) d
     = bullet (d, c) @ processBlocks ch (Suc d) @ processBlocks bs d"
  by (cases ch) (simp_all add: bullet_def repeat_two_spaces)

lemma processBlocks_empty_node: "processBlocks (Block [] ch # bs) d = processBlocks bs d"
  by simp

lemma processBlocks_three_levels:
  "processBlocks
     [Block ''a'' [Block ''b'' [Block ''c'' []], Block ''d'' []], Block ''e'' []] 0
   = ''- a\<newline>  - b\<newline>    - c\<newline>  - d\<newline>- e\<newline>''"
  by simp

text \<open>
  Claim C3, as the code has it: \<open>processBlocks\<close> renders, in depth-first pre-order
  (the children of a node before its later siblings), every node that has content and
  whose ancestors all have content, as a bullet line indented by two spaces per depth
  level.  A node without content gives no line, and neither does any node below it: its
  whole subtree is skipped.
\<close>

theorem processBlocks_renders_shown_nodes:
  "processBlocks bs d = concat (map bullet (concat (map (shown_nodes d) bs)))"
proof (induction bs d rule: processBlocks.induct)
  case (1 indent)
  show ?case by simp
next
  case (2 c ch bs indent)
  show ?case
  proof (cases "c = []")
    case True
    with 2 show ?thesis by simp
  next
    case False
    note nonempty = this
    show ?thesis
    proof (cases ch)
      case Nil
      with 2 nonempty show ?thesis
        by (simp add: bullet_def repeat_two_spaces)
    next
      case (Cons b bs')
      with 2 nonempty show ?thesis
        by (simp add: bullet_def repeat_two_spaces)
    qed
  qed
qed


text \<open>
  Claim C3 as stated fails: below a node without content, a child with content would
  have to render (the specification reading gives the line \<open>"  - child"\<close>), and the
  code renders nothing.
\<close>

theorem processBlocks_skips_children_of_empty_node:
  "processBlocks [Block [] [Block ''child'' []]] 0 = [] \<and>
   concat (map bullet (concat (map (spec_nodes 0) [Block [] [Block ''child'' []]])))
     = ''  - child\<newline>''"
  by (simp add: bullet_def numeral_2_eq_2)

subsection \<open>Dates: the time values and calendar of ECMA-262\<close>

text \<open>
  A time value counts milliseconds; \<open>Day\<close> is its day number and \<open>TimeWithinDay\<close> the
  milliseconds since that day began.  \<open>DayFromYear y\<close> is the day number of 1 January
  of year \<open>y\<close>; the year of a day is the largest \<open>y\<close> with \<open>DayFromYear y\<close> at or
  before it, found by a search upwards from an estimate that is never too large.
\<close>

definition msPerDay :: int where "msPerDay = 86400000"
definition Day :: "int \<Rightarrow> int" where "Day t = t div msPerDay"
definition TimeWithinDay :: "int \<Rightarrow> int" where "TimeWithinDay t = t mod msPerDay"

definition DaysInYear :: "int \<Rightarrow> int" where
  "DaysInYear y =
     (if y mod 4 \<noteq> 0 then 365 else if y mod 100 \<noteq> 0 then 366
      else if y mod 400 \<noteq> 0 then 365 else 366)"

definition DayFromYear :: "int \<Rightarrow> int" where
  "DayFromYear y =
     365 * (y - 1970) + (y - 1969) div 4 - (y - 1901) div 100 + (y - 1601) div 400"


lemma div_step:
  fixes x n :: int
  assumes n: "0 < n"
  shows "(x + 1) div n = x div n + (if (x + 1) mod n = 0 then 1 else 0)"
proof (cases "x mod n + 1 = n")
  case True
  have "x + 1 = n * (x div n) + (x mod n + 1)" by simp
  also have "\<dots> = n * (x div n + 1) + 0" using True by (simp add: algebra_simps)
  finally have e: "x + 1 = n * (x div n + 1) + 0" .
  have "(x + 1) div n = x div n + 1"
    using int_div_pos_eq [OF e] n by simp
  moreover have "(x + 1) mod n = 0"
    using int_mod_pos_eq [OF e] n by simp
  ultimately show ?thesis by simp
next
  case False
  have r: "0 \<le> x mod n" "x mod n < n" using n by simp_all
  with False have lt: "x mod n + 1 < n" by linarith
  have e: "x + 1 = n * (x div n) + (x mod n + 1)" by simp
  have "(x + 1) div n = x div n"
    using int_div_pos_eq [OF e] r lt by simp
  moreover have "(x + 1) mod n = x mod n + 1"
    using int_mod_pos_eq [OF e] r lt by simp
  ultimately show ?thesis using r by simp
qed

lemma mod_shift: "((y::int) - n * k) mod n = y mod n"
proof -
  have "y - n * k = y + n * (- k)" by simp
  then show ?thesis by (simp only: mod_mult_self2)
qed

lemma m4: "((y::int) + 1 - 1969) mod 4 = 0 \<longleftrightarrow> y mod 4 = 0"
  using mod_shift [of y 4 492] by simp
lemma m100: "((y::int) + 1 - 1901) mod 100 = 0 \<longleftrightarrow> y mod 100 = 0"
  using mod_shift [of y 100 19] by simp
lemma m400: "((y::int) + 1 - 1601) mod 400 = 0 \<longleftrightarrow> y mod 400 = 0"
  using mod_shift [of y 400 4] by simp

lemma mod_100_4: "(y::int) mod 100 = 0 \<Longrightarrow> y mod 4 = 0"
proof -
  assume "y mod 100 = 0"
  then have "100 dvd y" by (simp add: mod_eq_0_iff_dvd)
  moreover have "(4::int) dvd 100" by simp
  ultimately have "4 dvd y" by (rule dvd_trans [rotated])
  then show ?thesis by (simp add: mod_eq_0_iff_dvd)
qed

lemma mod_400_100: "(y::int) mod 400 = 0 \<Longrightarrow> y mod 100 = 0"
proof -
  assume "y mod 400 = 0"
  then have "400 dvd y" by (simp add: mod_eq_0_iff_dvd)
  moreover have "(100::int) dvd 400" by simp
  ultimately have "100 dvd y" by (rule dvd_trans [rotated])
  then show ?thesis by (simp add: mod_eq_0_iff_dvd)
qed


lemma DayFromYear_Suc: "DayFromYear (y + 1) = DayFromYear y + DaysInYear y"
proof -
  have e4: "(y + 1 - 1969) div 4 = (y - 1969) div 4 + (if y mod 4 = 0 then 1 else 0)"
    using div_step [of 4 "y - 1969"] m4 [of y] by (simp add: algebra_simps)
  have e100: "(y + 1 - 1901) div 100 = (y - 1901) div 100 + (if y mod 100 = 0 then 1 else 0)"
    using div_step [of 100 "y - 1901"] m100 [of y] by (simp add: algebra_simps)
  have e400: "(y + 1 - 1601) div 400 = (y - 1601) div 400 + (if y mod 400 = 0 then 1 else 0)"
    using div_step [of 400 "y - 1601"] m400 [of y] by (simp add: algebra_simps)
  consider "y mod 4 \<noteq> 0" | "y mod 4 = 0" "y mod 100 \<noteq> 0"
    | "y mod 100 = 0" "y mod 400 \<noteq> 0" | "y mod 400 = 0"
    by (cases "y mod 4 = 0"; cases "y mod 100 = 0"; cases "y mod 400 = 0") simp_all
  then show ?thesis
  proof cases
    case 1
    then have "y mod 100 \<noteq> 0" "y mod 400 \<noteq> 0"
      using mod_100_4 [of y] mod_400_100 [of y] by auto
    with 1 show ?thesis unfolding DayFromYear_def e4 e100 e400 DaysInYear_def by simp
  next
    case 2
    then have "y mod 400 \<noteq> 0" using mod_400_100 [of y] by auto
    with 2 show ?thesis unfolding DayFromYear_def e4 e100 e400 DaysInYear_def by simp
  next
    case 3
    then have "y mod 4 = 0" using mod_100_4 [of y] by auto
    with 3 show ?thesis unfolding DayFromYear_def e4 e100 e400 DaysInYear_def by simp
  next
    case 4
    then have "y mod 100 = 0" "y mod 4 = 0" using mod_100_4 [of y] mod_400_100 [of y] by auto
    with 4 show ?thesis unfolding DayFromYear_def e4 e100 e400 DaysInYear_def by simp
  qed
qed

lemma DaysInYear_bounds: "365 \<le> DaysInYear y" "DaysInYear y \<le> 366"
  by (simp_all add: DaysInYear_def)

lemma DayFromYear_less: "DayFromYear y < DayFromYear (y + 1)"
  using DaysInYear_bounds(1) [of y] by (simp add: DayFromYear_Suc)

function year_search :: "int \<Rightarrow> int \<Rightarrow> int" where
  "year_search d y = (if DayFromYear (y + 1) \<le> d then year_search d (y + 1) else y)"
  by pat_completeness auto
termination
proof (relation "measure (\<lambda>(d, y). nat (d - DayFromYear y))")
  show "wf (measure (\<lambda>(d, y). nat (d - DayFromYear y)))" by simp
next
  fix d y :: int
  assume "DayFromYear (y + 1) \<le> d"
  then show "((d, y + 1), (d, y)) \<in> measure (\<lambda>(d, y). nat (d - DayFromYear y))"
    using DayFromYear_less [of y] by simp
qed

declare year_search.simps [simp del]

definition YearFromDay :: "int \<Rightarrow> int" where
  "YearFromDay d = year_search d (1970 + (if 0 \<le> d then d div 366 else d div 365))"

lemma DayFromYear_1970: "DayFromYear 1970 = 0"
  by (simp add: DayFromYear_def)

lemma DayFromYear_upper_nonneg: "0 \<le> k \<Longrightarrow> DayFromYear (1970 + k) \<le> 366 * k"
proof (induction k rule: int_ge_induct)
  case base
  show ?case by (simp add: DayFromYear_1970)
next
  case (step i)
  have "DayFromYear (1970 + (i + 1)) = DayFromYear (1970 + i) + DaysInYear (1970 + i)"
    using DayFromYear_Suc [of "1970 + i"] by (simp add: add.assoc)
  with step DaysInYear_bounds(2) [of "1970 + i"] show ?case by simp
qed

lemma DayFromYear_upper_nonpos: "k \<le> 0 \<Longrightarrow> DayFromYear (1970 + k) \<le> 365 * k"
proof (induction k rule: int_le_induct)
  case base
  show ?case by (simp add: DayFromYear_1970)
next
  case (step i)
  have "DayFromYear (1970 + i) = DayFromYear (1970 + (i - 1)) + DaysInYear (1970 + (i - 1))"
    using DayFromYear_Suc [of "1970 + (i - 1)"] by (simp add: algebra_simps)
  with step DaysInYear_bounds(1) [of "1970 + (i - 1)"] show ?case by simp
qed

lemma year_estimate_below:
  "DayFromYear (1970 + (if 0 \<le> d then d div 366 else d div 365)) \<le> d"
proof (cases "0 \<le> d")
  case True
  then have "0 \<le> d div 366" by simp
  from DayFromYear_upper_nonneg [OF this] have "DayFromYear (1970 + d div 366) \<le> 366 * (d div 366)" .
  also have "\<dots> \<le> d" by (simp add: algebra_simps) 
  finally show ?thesis using True by simp
next
  case False
  then have "d div 365 \<le> 0" by (simp add: div_nonneg_neg_le0 less_imp_le)
  from DayFromYear_upper_nonpos [OF this] have "DayFromYear (1970 + d div 365) \<le> 365 * (d div 365)" .
  also have "\<dots> \<le> d" by (simp add: algebra_simps)
  finally show ?thesis using False by simp
qed

lemma year_search_correct:
  "DayFromYear y \<le> d \<Longrightarrow>
   DayFromYear (year_search d y) \<le> d \<and> d < DayFromYear (year_search d y + 1)"
proof (induction d y rule: year_search.induct)
  case (1 d y)
  show ?case
  proof (cases "DayFromYear (y + 1) \<le> d")
    case True
    with 1 show ?thesis by (simp add: year_search.simps [of d y])
  next
    case False
    with 1 show ?thesis by (simp add: year_search.simps [of d y])
  qed
qed

lemma YearFromDay_correct:
  "DayFromYear (YearFromDay d) \<le> d" "d < DayFromYear (YearFromDay d + 1)"
  using year_search_correct [OF year_estimate_below [of d]] by (simp_all add: YearFromDay_def)



definition YearFromTime :: "int \<Rightarrow> int" where
  "YearFromTime t = YearFromDay (Day t)"

definition InLeapYear :: "int \<Rightarrow> bool" where
  "InLeapYear t = (DaysInYear (YearFromTime t) = 366)"

definition DayWithinYear :: "int \<Rightarrow> int" where
  "DayWithinYear t = Day t - DayFromYear (YearFromTime t)"

text \<open>The day within the year on which month \<open>m\<close> (0 to 11) begins.\<close>

definition month_start :: "bool \<Rightarrow> int \<Rightarrow> int" where
  "month_start leap m =
     (let l = (if leap then 1 else 0) in
      if m = 0 then 0 else if m = 1 then 31 else if m = 2 then 59 + l
      else if m = 3 then 90 + l else if m = 4 then 120 + l else if m = 5 then 151 + l
      else if m = 6 then 181 + l else if m = 7 then 212 + l else if m = 8 then 243 + l
      else if m = 9 then 273 + l else if m = 10 then 304 + l else 334 + l)"

definition month_of_day :: "bool \<Rightarrow> int \<Rightarrow> int" where
  "month_of_day leap d =
     (let l = (if leap then 1 else 0) in
      if d < 31 then 0 else if d < 59 + l then 1 else if d < 90 + l then 2
      else if d < 120 + l then 3 else if d < 151 + l then 4 else if d < 181 + l then 5
      else if d < 212 + l then 6 else if d < 243 + l then 7 else if d < 273 + l then 8
      else if d < 304 + l then 9 else if d < 334 + l then 10 else 11)"

definition MonthFromTime :: "int \<Rightarrow> int" where
  "MonthFromTime t = month_of_day (InLeapYear t) (DayWithinYear t)"

definition DateFromTime :: "int \<Rightarrow> int" where
  "DateFromTime t = DayWithinYear t - month_start (InLeapYear t) (MonthFromTime t) + 1"

definition WeekDay :: "int \<Rightarrow> int" where
  "WeekDay t = (Day t + 4) mod 7"

definition MakeTime :: "int \<Rightarrow> int \<Rightarrow> int \<Rightarrow> int \<Rightarrow> int" where
  "MakeTime hour minute sec ms = hour * 3600000 + minute * 60000 + sec * 1000 + ms"

definition MakeDay :: "int \<Rightarrow> int \<Rightarrow> int \<Rightarrow> int" where
  "MakeDay year month date =
     (let ym = year + month div 12; mn = month mod 12
      in DayFromYear ym + month_start (DaysInYear ym = 366) mn + date - 1)"

definition MakeDate :: "int \<Rightarrow> int \<Rightarrow> int" where
  "MakeDate day time = day * msPerDay + time"

text \<open>
  The time zone of the host, as ECMA-262 reads it: the offset of local time from UTC at
  an instant, and the offset that belongs to a local time value.  Where a transition
  skips or repeats local times, the second is the offset from before the transition.
  Both are in milliseconds, and both are parameters: the model fixes no zone.
\<close>

record zone =
  offset_at :: "int \<Rightarrow> int"
  offset_of_local :: "int \<Rightarrow> int"

definition LocalTime :: "zone \<Rightarrow> int \<Rightarrow> int" where
  "LocalTime z t = t + offset_at z t"

definition UTC :: "zone \<Rightarrow> int \<Rightarrow> int" where
  "UTC z t = t - offset_of_local z t"

text \<open>
  The setters of \<open>Date\<close> that the source calls: each reads the time value in local time,
  replaces fields, and converts the result back.
\<close>

definition setHours :: "zone \<Rightarrow> int \<Rightarrow> int \<Rightarrow> int \<Rightarrow> int \<Rightarrow> int \<Rightarrow> int" where
  "setHours z t hour minute sec ms =
     UTC z (MakeDate (Day (LocalTime z t)) (MakeTime hour minute sec ms))"

definition setDate :: "zone \<Rightarrow> int \<Rightarrow> int \<Rightarrow> int" where
  "setDate z t date =
     (let local = LocalTime z t
      in UTC z (MakeDate (MakeDay (YearFromTime local) (MonthFromTime local) date)
                  (TimeWithinDay local)))"

definition setMonth :: "zone \<Rightarrow> int \<Rightarrow> int \<Rightarrow> int \<Rightarrow> int" where
  "setMonth z t month date =
     (let local = LocalTime z t
      in UTC z (MakeDate (MakeDay (YearFromTime local) month date) (TimeWithinDay local)))"

lemma month_of_day_range: "0 \<le> month_of_day l d" "month_of_day l d \<le> 11"
  by (simp_all add: month_of_day_def Let_def)

lemma month_start_of_day: "0 \<le> d \<Longrightarrow> month_start l (month_of_day l d) \<le> d"
  by (simp add: month_of_day_def month_start_def Let_def)

lemma MonthFromTime_range: "0 \<le> MonthFromTime t" "MonthFromTime t \<le> 11"
  by (simp_all add: MonthFromTime_def month_of_day_range)

lemma DayWithinYear_range: "0 \<le> DayWithinYear t" "DayWithinYear t < DaysInYear (YearFromTime t)"
  using YearFromDay_correct [of "Day t"] DayFromYear_Suc [of "YearFromTime t"]
  by (simp_all add: DayWithinYear_def YearFromTime_def)

lemma DateFromTime_ge_1: "1 \<le> DateFromTime t"
  using month_start_of_day [OF DayWithinYear_range(1), of "InLeapYear t" t]
  by (simp add: DateFromTime_def MonthFromTime_def)


lemma Day_MakeDate: "0 \<le> time \<Longrightarrow> time < msPerDay \<Longrightarrow> Day (MakeDate day time) = day"
  by (simp add: Day_def MakeDate_def msPerDay_def div_pos_pos_trivial)

lemma TimeWithinDay_MakeDate:
  "0 \<le> time \<Longrightarrow> time < msPerDay \<Longrightarrow> TimeWithinDay (MakeDate day time) = time"
  by (simp add: TimeWithinDay_def MakeDate_def msPerDay_def)

lemma TimeWithinDay_range: "0 \<le> TimeWithinDay t" "TimeWithinDay t < msPerDay"
  by (simp_all add: TimeWithinDay_def msPerDay_def)

lemma month_cases:
  "0 \<le> (m::int) \<Longrightarrow> m \<le> 11 \<Longrightarrow>
   m = 0 \<or> m = 1 \<or> m = 2 \<or> m = 3 \<or> m = 4 \<or> m = 5 \<or> m = 6 \<or> m = 7 \<or> m = 8 \<or> m = 9
     \<or> m = 10 \<or> m = 11"
  by arith





subsection \<open>Property lookup on an object literal\<close>

text \<open>
  \<open>obj[key]\<close> on an object literal finds the literal's own entries and, failing that,
  the members every object inherits from \<open>Object.prototype\<close>: eleven functions and the
  accessor \<open>__proto__\<close>, whose value is the prototype object itself.
\<close>

datatype 'a property = Own 'a | Inherited_function string | Inherited_prototype | Missing

definition Object_prototype_functions :: "string list" where
  "Object_prototype_functions =
     [''constructor'', ''hasOwnProperty'', ''isPrototypeOf'', ''propertyIsEnumerable'',
      ''toLocaleString'', ''toString'', ''valueOf'', ''__defineGetter__'',
      ''__defineSetter__'', ''__lookupGetter__'', ''__lookupSetter__'']"

definition property_lookup :: "(string \<times> 'a) list \<Rightarrow> string \<Rightarrow> 'a property" where
  "property_lookup obj key =
     (case map_of obj key of
        Some v \<Rightarrow> Own v
      | None \<Rightarrow>
          if key \<in> set Object_prototype_functions then Inherited_function key
          else if key = ''__proto__'' then Inherited_prototype
          else Missing)"

subsection \<open>\<open>parseDateRange\<close>\<close>

text \<open>The getters of \<open>Date\<close> read the fields of the time value in local time.\<close>

abbreviation getDate :: "zone \<Rightarrow> int \<Rightarrow> int" where
  "getDate z t \<equiv> DateFromTime (LocalTime z t)"
abbreviation getDay :: "zone \<Rightarrow> int \<Rightarrow> int" where
  "getDay z t \<equiv> WeekDay (LocalTime z t)"
abbreviation getMonth :: "zone \<Rightarrow> int \<Rightarrow> int" where
  "getMonth z t \<equiv> MonthFromTime (LocalTime z t)"
abbreviation getFullYear :: "zone \<Rightarrow> int \<Rightarrow> int" where
  "getFullYear z t \<equiv> YearFromTime (LocalTime z t)"

text \<open>\<open>toLocaleString('en-US', {month: 'long'})\<close> and \<open>{month: 'short'}\<close>, by month 0 to 11.\<close>

definition month_long :: "int \<Rightarrow> string" where
  "month_long m =
     [''January'', ''February'', ''March'', ''April'', ''May'', ''June'', ''July'',
      ''August'', ''September'', ''October'', ''November'', ''December''] ! nat m"

definition month_short :: "int \<Rightarrow> string" where
  "month_short m =
     [''Jan'', ''Feb'', ''Mar'', ''Apr'', ''May'', ''Jun'', ''Jul'', ''Aug'', ''Sep'',
      ''Oct'', ''Nov'', ''Dec''] ! nat m"

text \<open>The three locals \<open>start\<close>, \<open>end\<close> and \<open>title\<close>, which the closures of \<open>ranges\<close> mutate.\<close>

record date_range =
  start :: int
  end_date :: int
  title :: string

definition ranges :: "zone \<Rightarrow> int \<Rightarrow> (string \<times> (date_range \<Rightarrow> date_range)) list" where
  "ranges z today =
     [(''today'', \<lambda>r.
         r\<lparr>start := setHours z (start r) 0 0 0 0, title := ''Today's Journal''\<rparr>),
      (''yesterday'', \<lambda>r.
         r\<lparr>start := setHours z (setDate z (start r) (getDate z today - 1)) 0 0 0 0,
           end_date := setDate z (end_date r) (getDate z today - 1),
           title := ''Yesterday's Journal''\<rparr>),
      (''this week'', \<lambda>r.
         r\<lparr>start :=
             setHours z (setDate z (start r) (getDate z today - getDay z today)) 0 0 0 0,
           title := ''This Week's Journal''\<rparr>),
      (''last week'', \<lambda>r.
         r\<lparr>start :=
             setHours z (setDate z (start r) (getDate z today - getDay z today - 7)) 0 0 0 0,
           end_date :=
             setHours z (setDate z (end_date r) (getDate z today - getDay z today - 1))
               23 59 59 999,
           title := ''Last Week's Journal''\<rparr>),
      (''this month'', \<lambda>r.
         r\<lparr>start := setHours z (setDate z (start r) 1) 0 0 0 0,
           title :=
             ''Journal for '' @ month_long (getMonth z today) @ '' ''
               @ show_int (getFullYear z today)\<rparr>),
      (''last month'', \<lambda>r.
         (let start' = setHours z (setMonth z (start r) (getMonth z today - 1) 1) 0 0 0 0
          in r\<lparr>start := start',
               end_date := setDate z (end_date r) 0,
               title :=
                 ''Journal for '' @ month_long (getMonth z start') @ '' ''
                   @ show_int (getFullYear z start')\<rparr>)),
      (''last 7 days'', \<lambda>r.
         r\<lparr>start := setHours z (setDate z (start r) (getDate z today - 7)) 0 0 0 0,
           title := ''Last 7 Days Journal''\<rparr>),
      (''last 30 days'', \<lambda>r.
         r\<lparr>start := setHours z (setDate z (start r) (getDate z today - 30)) 0 0 0 0,
           title := ''Last 30 Days Journal''\<rparr>)]"

text \<open>
  \<open>z\<close> is the time zone of the host and \<open>today\<close> the time value of \<open>new Date()\<close>.  A key
  that \<open>ranges\<close> does not own but inherits is truthy as well, so the source calls it:
  the inherited functions return (\<open>__defineGetter__\<close> and \<open>__defineSetter__\<close> reject the
  missing getter), and the prototype object is not callable.
\<close>

definition parseDateRange :: "zone \<Rightarrow> int \<Rightarrow> string \<Rightarrow> error + date_range" where
  "parseDateRange z today dateRange =
     (let r = \<lparr>start = today, end_date = setHours z today 23 59 59 999, title = ''''\<rparr>;
          normalizedRange = trim (toLowerCase dateRange)
      in case property_lookup (ranges z today) normalizedRange of
           Own f \<Rightarrow> Inr (f r)
         | Inherited_function k \<Rightarrow>
             if k \<in> set [''__defineGetter__'', ''__defineSetter__'']
             then Inl (TypeError ''Object.prototype.__defineGetter__: Expecting function'')
             else Inr r
         | Inherited_prototype \<Rightarrow> Inl (TypeError ''ranges[normalizedRange] is not a function'')
         | Missing \<Rightarrow>
             Inr (r\<lparr>start :=
                      setHours z (setDate z (start r) (getDate z today - getDay z today))
                        0 0 0 0,
                    title := ''Weekly Journal''\<rparr>))"

text \<open>
  The phrases that \<open>ranges\<close> owns, and the title column of the table of section 4.2, for
  the local time \<open>today\<close> of the current instant.
\<close>

definition recognized_phrases :: "string list" where
  "recognized_phrases =
     [''today'', ''yesterday'', ''this week'', ''last week'', ''this month'', ''last month'',
      ''last 7 days'', ''last 30 days'']"


subsection \<open>The calendar arithmetic of the setters\<close>


lemma Day_whole: "0 \<le> r \<Longrightarrow> r < msPerDay \<Longrightarrow> Day (d * msPerDay + r) = d"
  using Day_MakeDate [of r d] by (simp add: MakeDate_def)

lemma TimeWithinDay_whole:
  "0 \<le> r \<Longrightarrow> r < msPerDay \<Longrightarrow> TimeWithinDay (d * msPerDay + r) = r"
  using TimeWithinDay_MakeDate [of r d] by (simp add: MakeDate_def)

lemma Day_last [simp]: "Day (d * msPerDay + (msPerDay - 1)) = d"
  by (rule Day_whole) (simp_all add: msPerDay_def)

lemma TimeWithinDay_last [simp]: "TimeWithinDay (d * msPerDay + (msPerDay - 1)) = msPerDay - 1"
  by (rule TimeWithinDay_whole) (simp_all add: msPerDay_def)

lemma Day_first [simp]: "Day (d * msPerDay) = d"
  using Day_whole [of 0 d] by (simp add: msPerDay_def)

lemma TimeWithinDay_first [simp]: "TimeWithinDay (d * msPerDay) = 0"
  by (simp add: TimeWithinDay_def)

lemma Day_at_time [simp]: "Day (d * msPerDay + TimeWithinDay t) = d"
  by (rule Day_whole) (rule TimeWithinDay_range)+

lemma TimeWithinDay_at_time [simp]:
  "TimeWithinDay (d * msPerDay + TimeWithinDay t) = TimeWithinDay t"
  by (rule TimeWithinDay_whole) (rule TimeWithinDay_range)+


lemma fields_by_day:
  assumes "Day a = Day b"
  shows "YearFromTime a = YearFromTime b" "MonthFromTime a = MonthFromTime b"
    "DateFromTime a = DateFromTime b" "WeekDay a = WeekDay b"
  using assms
  by (simp_all add: YearFromTime_def MonthFromTime_def DateFromTime_def WeekDay_def
      InLeapYear_def DayWithinYear_def)

lemma fields_last [simp]:
  "DateFromTime (Day t * msPerDay + (msPerDay - 1)) = DateFromTime t"
  "MonthFromTime (Day t * msPerDay + (msPerDay - 1)) = MonthFromTime t"
  "YearFromTime (Day t * msPerDay + (msPerDay - 1)) = YearFromTime t"
  by (rule fields_by_day, simp)+





text \<open>The day of the month is at most 31.\<close>

lemma month_of_day_end:
  assumes "0 \<le> d" and "d < (if l then 366 else 365)"
  shows "d - month_start l (month_of_day l d) \<le> 30"
  using assms by (simp add: month_of_day_def month_start_def Let_def split: if_splits)

lemma DateFromTime_le_31: "DateFromTime t \<le> 31"
proof -
  have "DayWithinYear t < (if InLeapYear t then 366 else 365)"
    using DayWithinYear_range(2) [of t] DaysInYear_bounds [of "YearFromTime t"]
    by (simp add: InLeapYear_def DaysInYear_def split: if_splits)
  from month_of_day_end [OF DayWithinYear_range(1) this] show ?thesis
    by (simp add: DateFromTime_def MonthFromTime_def)
qed

subsection \<open>\<open>parseDateRange\<close>: the recognized phrases\<close>






lemma lookup_simps:
  "property_lookup (ranges z t) ''today'' = Own (snd (ranges z t ! 0))"
  "property_lookup (ranges z t) ''yesterday'' = Own (snd (ranges z t ! 1))"
  "property_lookup (ranges z t) ''this week'' = Own (snd (ranges z t ! 2))"
  "property_lookup (ranges z t) ''last week'' = Own (snd (ranges z t ! 3))"
  "property_lookup (ranges z t) ''this month'' = Own (snd (ranges z t ! 4))"
  "property_lookup (ranges z t) ''last month'' = Own (snd (ranges z t ! 5))"
  "property_lookup (ranges z t) ''last 7 days'' = Own (snd (ranges z t ! 6))"
  "property_lookup (ranges z t) ''last 30 days'' = Own (snd (ranges z t ! 7))"
  by (simp_all add: property_lookup_def ranges_def)













text \<open>
  The offsets of Africa/Cairo around 25 April 2025, the day on which local time went
  from 00:00 straight to 01:00: two hours before the instant 2025-04-24T22:00:00Z and
  three hours from it on; a local time of the skipped hour has the offset of two hours.
\<close>

definition spring_forward :: zone where
  "spring_forward =
     \<lparr>offset_at = (\<lambda>t. if t < 1745532000000 then 7200000 else 10800000),
      offset_of_local = (\<lambda>t. if t < 1745542800000 then 7200000 else 10800000)\<rparr>"






subsection \<open>\<open>parseDateRange\<close>: phrases that \<open>ranges\<close> does not own\<close>

definition upper_letters :: string where
  "upper_letters = ''ABCDEFGHIJKLMNOPQRSTUVWXYZ''"

lemma case_table_upper: "set upper_letters \<subseteq> fst ` set case_table"
  by (simp add: upper_letters_def case_table_def)

lemma case_table_lower: "snd ` set case_table \<inter> set upper_letters = {}"
  by (simp add: upper_letters_def case_table_def)

lemma lower_char_not_upper: "lower_char c \<notin> set upper_letters"
proof (cases "map_of case_table c")
  case None
  then have "c \<notin> fst ` set case_table" by (simp add: map_of_eq_None_iff)
  with case_table_upper have "c \<notin> set upper_letters" by blast
  with None show ?thesis by (simp add: lower_char_def)
next
  case (Some l)
  then have "(c, l) \<in> set case_table" by (rule map_of_SomeD)
  then have "l \<in> snd ` set case_table" by force
  with case_table_lower have "l \<notin> set upper_letters" by blast
  with Some show ?thesis by (simp add: lower_char_def)
qed

lemma normalized_no_upper: "set (trim (toLowerCase s)) \<inter> set upper_letters = {}"
proof -
  have "set (trim (toLowerCase s)) \<subseteq> set (toLowerCase s)"
  proof
    fix c assume "c \<in> set (trim (toLowerCase s))"
    then have "c \<in> set (dropWhile is_space (rev (dropWhile is_space (toLowerCase s))))"
      by (simp add: trim_def)
    then have "c \<in> set (rev (dropWhile is_space (toLowerCase s)))"
      by (rule set_dropWhileD)
    then have "c \<in> set (dropWhile is_space (toLowerCase s))" by simp
    then show "c \<in> set (toLowerCase s)" by (rule set_dropWhileD)
  qed
  moreover have "set (toLowerCase s) \<inter> set upper_letters = {}"
    using lower_char_not_upper by (auto simp: toLowerCase_def)
  ultimately show ?thesis by blast
qed

lemma normalized_inherited:
  assumes "trim (toLowerCase s) \<in> set Object_prototype_functions"
  shows "trim (toLowerCase s) = ''constructor''"
proof -
  let ?n = "trim (toLowerCase s)"
  have no: "\<And>c. c \<in> set upper_letters \<Longrightarrow> c \<notin> set ?n"
    using normalized_no_upper [of s] by blast
  have "CHR ''O'' \<notin> set ?n" "CHR ''P'' \<notin> set ?n" "CHR ''E'' \<notin> set ?n" "CHR ''L'' \<notin> set ?n"
    "CHR ''S'' \<notin> set ?n" "CHR ''G'' \<notin> set ?n"
    by (rule no, simp add: upper_letters_def)+
  with assms show ?thesis
    unfolding Object_prototype_functions_def by auto
qed

lemma ranges_keys: "map fst (ranges z today) = recognized_phrases"
  by (simp add: ranges_def recognized_phrases_def)

lemma lookup_missing:
  assumes "trim (toLowerCase p) \<notin> set recognized_phrases"
    and "trim (toLowerCase p) \<noteq> ''constructor''"
    and "trim (toLowerCase p) \<noteq> ''__proto__''"
  shows "property_lookup (ranges z today) (trim (toLowerCase p)) = Missing"
proof -
  have "map_of (ranges z today) (trim (toLowerCase p)) = None"
    using assms(1) ranges_keys [of z today] by (metis map_of_eq_None_iff set_map)
  moreover have "trim (toLowerCase p) \<notin> set Object_prototype_functions"
    using normalized_inherited [of p] assms(2) by blast
  ultimately show ?thesis using assms(3) by (simp add: property_lookup_def)
qed

text \<open>
  Every phrase that is neither recognized nor, once normalized, \<open>constructor\<close> or
  \<open>__proto__\<close> resolves to the range of \<open>this week\<close> with the title \<open>Weekly Journal\<close>, in
  every time zone and at every instant.
\<close>

lemma parseDateRange_fallback_this_week:
  assumes "trim (toLowerCase p) \<notin> set recognized_phrases"
    and "trim (toLowerCase p) \<noteq> ''constructor''"
    and "trim (toLowerCase p) \<noteq> ''__proto__''"
  shows "\<exists>r w. parseDateRange z today p = Inr r \<and> parseDateRange z today ''this week'' = Inr w
    \<and> start r = start w \<and> end_date r = end_date w \<and> title r = ''Weekly Journal''"
proof -
  have "trim (toLowerCase ''this week'') = ''this week''"
    by (simp add: trim_def toLowerCase_def lower_char_def case_table_def is_space_def)
  then have "parseDateRange z today ''this week''
      = Inr (snd (ranges z today ! 2)
              \<lparr>start = today, end_date = setHours z today 23 59 59 999, title = []\<rparr>)"
    by (simp add: parseDateRange_def lookup_simps)
  moreover have "parseDateRange z today p
      = Inr \<lparr>start = setHours z (setDate z today (getDate z today - getDay z today)) 0 0 0 0,
             end_date = setHours z today 23 59 59 999, title = ''Weekly Journal''\<rparr>"
    by (simp add: parseDateRange_def lookup_missing [OF assms])
  ultimately show ?thesis by (simp add: ranges_def)
qed

text \<open>
  Claim C1 at the phrases \<open>constructor\<close> and \<open>__proto__\<close>: neither is one of the eight
  recognized phrases, and the lookup \<open>ranges[normalizedRange]\<close> still finds a truthy
  inherited member.  For \<open>constructor\<close> the call returns and leaves the three locals as
  they were initialised: \<open>start\<close> is the current instant, not the start of the week,
  and the title is empty.  For \<open>__proto__\<close> the call raises a \<open>TypeError\<close>.
\<close>

theorem parseDateRange_inherited_keys:
  "parseDateRange z today ''constructor''
     = Inr \<lparr>start = today, end_date = setHours z today 23 59 59 999, title = []\<rparr>
   \<and> parseDateRange z today ''__proto__''
     = Inl (TypeError ''ranges[normalizedRange] is not a function'')"
proof -
  have n: "trim (toLowerCase ''constructor'') = ''constructor''"
    "trim (toLowerCase ''__proto__'') = ''__proto__''"
    by (simp_all add: trim_def toLowerCase_def lower_char_def case_table_def is_space_def)
  have "property_lookup (ranges z today) ''constructor'' = Inherited_function ''constructor''"
    "property_lookup (ranges z today) ''__proto__'' = Inherited_prototype"
    by (simp_all add: property_lookup_def ranges_def Object_prototype_functions_def)
  with n show ?thesis by (simp add: parseDateRange_def)
qed

subsection \<open>\<open>buildDatalogQuery\<close>\<close>

text \<open>
  The parameter bag, with the entries the templates read.  The handlers pass strings
  (and a number for \<open>days\<close>); an entry that is missing reads as \<open>undefined\<close>.
\<close>

record params =
  param_property :: "string option"
  param_value :: "string option"
  param_text :: "string option"
  param_tag :: "string option"
  param_page :: "string option"
  param_days :: "int option"
  param_custom :: "string option"

definition no_params :: params where
  "no_params =
     \<lparr>param_property = None, param_value = None, param_text = None, param_tag = None,
      param_page = None, param_days = None, param_custom = None\<rparr>"

text \<open>A template hole \<open>${x}\<close> for an optional string, and \<open>x?.toLowerCase()\<close> in a hole.\<close>

definition hole :: "string option \<Rightarrow> string" where
  "hole x = (case x of None \<Rightarrow> ''undefined'' | Some s \<Rightarrow> s)"

definition lower_hole :: "string option \<Rightarrow> string" where
  "lower_hole x = hole (map_option toLowerCase x)"

text \<open>\<open>now\<close> is \<open>Date.now()\<close>.  All ten templates are built on every call.\<close>

definition queries :: "int \<Rightarrow> params \<Rightarrow> (string \<times> string) list" where
  "queries now ps =
     [(''pages'', ''[:find (pull ?p [*]) :where [?p :block/name]]''),
      (''pages_with_property'',
         ''[:find (pull ?p [*]) :where [?p :block/properties ?props] [(get ?props :''
           @ hole (param_property ps) @ '') ?v] [(= ?v \"'' @ hole (param_value ps) @ ''\")]]''),
      (''todos'',
         ''[:find (pull ?b [*]) :where [?b :block/marker ?m] [(contains? #{\"TODO\" \"DOING\" \"NOW\" \"LATER\" \"WAITING\"} ?m)]]''),
      (''blocks_with_text'',
         ''[:find (pull ?b [*]) :where [?b :block/content ?c] [(clojure.string/includes? ?c \"''
           @ hole (param_text ps) @ ''\")]]''),
      (''pages_with_tag'',
         ''[:find (pull ?p [*]) :where [?p :block/tags ?t] [?t :block/name \"''
           @ lower_hole (param_tag ps) @ ''\"]]''),
      (''blocks_with_tag'',
         ''[:find (pull ?b [*]) :where [?b :block/refs ?r] [?r :block/name \"''
           @ lower_hole (param_tag ps) @ ''\"]]''),
      (''journals'', ''[:find (pull ?p [*]) :where [?p :block/journal? true]]''),
      (''recent_pages'',
         ''[:find (pull ?p [*]) :where [?p :block/updated-at ?t] [(> ?t ''
           @ show_int (now - (case param_days ps of None \<Rightarrow> 7 | Some d \<Rightarrow> if d = 0 then 7 else d)
                               * 86400000)
           @ '')]]''),
      (''orphan_pages'',
         ''[:find (pull ?p [*]) :where [?p :block/name] (not [?b :block/refs ?p])]''),
      (''backlinks'',
         ''[:find (pull ?p [*]) :where [?b :block/refs ?target] [?target :block/name \"''
           @ lower_hole (param_page ps) @ ''\"] [?b :block/page ?p]]'')]"

text \<open>
  What \<open>buildDatalogQuery\<close> returns: a query text, or a member that the catalog object
  inherits (a function or the prototype object, named by its key).
\<close>

datatype query_value = Query_text string | Inherited_member string

definition buildDatalogQuery :: "int \<Rightarrow> string \<Rightarrow> params \<Rightarrow> query_value" where
  "buildDatalogQuery now queryType ps =
     (let pages = (case map_of (queries now ps) ''pages'' of Some q \<Rightarrow> q | None \<Rightarrow> []);
          fallback =
            (case param_custom ps of
               Some c \<Rightarrow> if c \<noteq> [] then c else pages
             | None \<Rightarrow> pages)
      in case property_lookup (queries now ps) queryType of
           Own q \<Rightarrow> Query_text (if q \<noteq> [] then q else fallback)
         | Inherited_function k \<Rightarrow> Inherited_member k
         | Inherited_prototype \<Rightarrow> Inherited_member ''__proto__''
         | Missing \<Rightarrow> Query_text fallback)"

subsection \<open>\<open>buildDatalogQuery\<close>: types that the catalog does not own\<close>











subsection \<open>JavaScript values\<close>

text \<open>
  The values that the remote API returns (JSON) and that property reads produce.
  Numbers are integral in the model.  The entries of an object have distinct keys, as
  \<open>JSON.parse\<close> delivers them.
\<close>

datatype jsval =
    JUndefined
  | JNull
  | JBool bool
  | JNum int
  | JStr string
  | JArr "jsval list"
  | JObj "(string \<times> jsval) list"

fun truthy :: "jsval \<Rightarrow> bool" where
  "truthy JUndefined = False"
| "truthy JNull = False"
| "truthy (JBool b) = b"
| "truthy (JNum n) = (n \<noteq> 0)"
| "truthy (JStr s) = (s \<noteq> [])"
| "truthy (JArr xs) = True"
| "truthy (JObj kvs) = True"

text \<open>
  \<open>v[key]\<close> for a value that is neither \<open>null\<close> nor \<open>undefined\<close>, for the keys that
  the source reads: \<open>0\<close>, \<open>length\<close> and field names that no built-in prototype defines.
\<close>

fun property_of :: "jsval \<Rightarrow> string \<Rightarrow> jsval" where
  "property_of (JObj kvs) key = (case map_of kvs key of Some v \<Rightarrow> v | None \<Rightarrow> JUndefined)"
| "property_of (JArr xs) key =
     (if key = ''0'' then (case xs of [] \<Rightarrow> JUndefined | x # _ \<Rightarrow> x)
      else if key = ''length'' then JNum (int (length xs))
      else JUndefined)"
| "property_of (JStr s) key =
     (if key = ''0'' then (case s of [] \<Rightarrow> JUndefined | c # _ \<Rightarrow> JStr [c])
      else if key = ''length'' then JNum (int (length s))
      else JUndefined)"
| "property_of v key = JUndefined"

text \<open>\<open>v[key]\<close> for any value: reading a property of \<open>null\<close> or \<open>undefined\<close> throws.\<close>

definition get_property :: "jsval \<Rightarrow> string \<Rightarrow> error + jsval" where
  "get_property v key =
     (case v of
        JUndefined \<Rightarrow> Inl (cannot_read ''undefined'' key)
      | JNull \<Rightarrow> Inl (cannot_read ''null'' key)
      | _ \<Rightarrow> Inr (property_of v key))"

text \<open>\<open>xs.join(sep)\<close> on strings, and \<open>String(v)\<close>: an array prints its elements joined by
  commas, where \<open>null\<close> and \<open>undefined\<close> elements print as nothing.\<close>

fun join_with :: "string \<Rightarrow> string list \<Rightarrow> string" where
  "join_with sep [] = []"
| "join_with sep [x] = x"
| "join_with sep (x # y # ys) = x @ sep @ join_with sep (y # ys)"

fun to_str :: "jsval \<Rightarrow> string" where
  "to_str JUndefined = ''undefined''"
| "to_str JNull = ''null''"
| "to_str (JBool b) = (if b then ''true'' else ''false'')"
| "to_str (JNum n) = show_int n"
| "to_str (JStr s) = s"
| "to_str (JArr xs) =
     join_with '','' (map (\<lambda>x. if x = JUndefined \<or> x = JNull then [] else to_str x) xs)"
| "to_str (JObj kvs) = ''[object Object]''"

text \<open>The conversion that \<open>Array.prototype.join\<close> applies to an element.\<close>

definition join_element :: "jsval \<Rightarrow> string" where
  "join_element v = (if v = JUndefined \<or> v = JNull then [] else to_str v)"

subsection \<open>The formatter of \<open>logseq_query\<close>\<close>

text \<open>\<open>r[0] || r\<close>.\<close>

definition unwrap :: "jsval \<Rightarrow> error + jsval" where
  "unwrap r =
     (case get_property r ''0'' of
        Inl e \<Rightarrow> Inl e
      | Inr first \<Rightarrow> Inr (if truthy first then first else r))"

text \<open>\<open>item[k1] || item[k2] || ... || otherwise\<close>: the first truthy read, else \<open>otherwise\<close>.\<close>

fun first_truthy :: "jsval \<Rightarrow> string list \<Rightarrow> jsval \<Rightarrow> error + jsval" where
  "first_truthy item [] otherwise = Inr otherwise"
| "first_truthy item (key # keys) otherwise =
     (case get_property item key of
        Inl e \<Rightarrow> Inl e
      | Inr v \<Rightarrow> if truthy v then Inr v else first_truthy item keys otherwise)"

text \<open>\<open>v?.substring(0, n)\<close>, and \<open>v.substring(0, n)\<close> for a truthy \<open>v\<close>.\<close>

definition optional_substring :: "jsval \<Rightarrow> nat \<Rightarrow> error + jsval" where
  "optional_substring v n =
     (case v of
        JUndefined \<Rightarrow> Inr JUndefined
      | JNull \<Rightarrow> Inr JUndefined
      | JStr s \<Rightarrow> Inr (JStr (take n s))
      | _ \<Rightarrow> Inl (TypeError ''substring is not a function''))"

definition name_keys :: "string list" where
  "name_keys = [''block/name'', ''block/original-name'', ''name'', ''originalName'']"

text \<open>The callback of \<open>results.map\<close> in \<open>names\<close> mode.\<close>

definition names_entry :: "jsval \<Rightarrow> error + jsval" where
  "names_entry r =
     (case unwrap r of
        Inl e \<Rightarrow> Inl e
      | Inr item \<Rightarrow>
          (case first_truthy item name_keys JUndefined of
             Inl e \<Rightarrow> Inl e
           | Inr v \<Rightarrow>
               if truthy v then Inr v
               else (case get_property item ''content'' of
                       Inl e \<Rightarrow> Inl e
                     | Inr c \<Rightarrow>
                         (case optional_substring c 50 of
                            Inl e \<Rightarrow> Inl e
                          | Inr p \<Rightarrow> Inr (if truthy p then p else JStr ''Unknown'')))))"

text \<open>\<open>results.map(f)\<close> for a callback that may throw: the first exception ends the loop.\<close>

fun map_results :: "('a \<Rightarrow> error + 'b) \<Rightarrow> 'a list \<Rightarrow> error + 'b list" where
  "map_results f [] = Inr []"
| "map_results f (x # xs) =
     (case f x of
        Inl e \<Rightarrow> Inl e
      | Inr y \<Rightarrow> (case map_results f xs of Inl e \<Rightarrow> Inl e | Inr ys \<Rightarrow> Inr (y # ys)))"

definition format_names :: "jsval list \<Rightarrow> error + string" where
  "format_names results =
     (case map_results names_entry results of
        Inl e \<Rightarrow> Inl e
      | Inr names \<Rightarrow> Inr (join_with ''\<newline>'' (map join_element names)))"

text \<open>The callback of \<open>forEach\<close> in \<open>summary\<close> mode: the text that one result appends.\<close>

definition summary_entry :: "nat \<Rightarrow> jsval \<Rightarrow> error + string" where
  "summary_entry i r =
     (case unwrap r of
        Inl e \<Rightarrow> Inl e
      | Inr item \<Rightarrow>
     (case first_truthy item name_keys (JStr []) of
        Inl e \<Rightarrow> Inl e
      | Inr name \<Rightarrow>
     (case first_truthy item [''block/content'', ''content''] (JStr []) of
        Inl e \<Rightarrow> Inl e
      | Inr content \<Rightarrow>
     (case first_truthy item [''block/marker'', ''marker''] (JStr []) of
        Inl e \<Rightarrow> Inl e
      | Inr marker \<Rightarrow>
          (let t1 = (if truthy name
                     then show_int (int i + 1) @ ''. [['' @ to_str name @ '']]'' else []);
               t2 = t1 @ (if truthy marker then '' ['' @ to_str marker @ '']'' else [])
           in if truthy content \<and> \<not> truthy name
              then (case optional_substring content 100 of
                      Inl e \<Rightarrow> Inl e
                    | Inr excerpt \<Rightarrow>
                        Inr (t2 @ show_int (int i + 1) @ ''. '' @ to_str excerpt @ ''...''
                               @ ''\<newline>''))
              else Inr (t2 @ ''\<newline>''))))))"

text \<open>The \<open>forEach\<close> loop over \<open>results.slice(0, 20)\<close>, with its index and the text so far.\<close>

fun summary_loop :: "jsval list \<Rightarrow> nat \<Rightarrow> string \<Rightarrow> error + string" where
  "summary_loop [] i outputText = Inr outputText"
| "summary_loop (r # rs) i outputText =
     (case summary_entry i r of
        Inl e \<Rightarrow> Inl e
      | Inr t \<Rightarrow> summary_loop rs (i + 1) (outputText @ t))"

definition format_summary :: "jsval list \<Rightarrow> error + string" where
  "format_summary results =
     (case summary_loop (take 20 results) 0
             (''Found '' @ show_int (int (length results)) @ '' results:\<newline>\<newline>'') of
        Inl e \<Rightarrow> Inl e
      | Inr outputText \<Rightarrow>
          Inr (if length results > 20
               then outputText @ ''\<newline>... and '' @ show_int (int (length results) - 20)
                      @ '' more results''
               else outputText))"

subsection \<open>The formatter: reading a row\<close>

text \<open>
  The pure readings behind the formatter: a value other than \<open>null\<close> and \<open>undefined\<close>
  can be read without an exception.
\<close>

definition nullish :: "jsval \<Rightarrow> bool" where
  "nullish v = (v = JUndefined \<or> v = JNull)"

definition item_of :: "jsval \<Rightarrow> jsval" where
  "item_of r = (if truthy (property_of r ''0'') then property_of r ''0'' else r)"

definition first_of :: "jsval list \<Rightarrow> jsval \<Rightarrow> jsval" where
  "first_of vs otherwise = (case find truthy vs of Some v \<Rightarrow> v | None \<Rightarrow> otherwise)"

definition text_or_absent :: "jsval \<Rightarrow> bool" where
  "text_or_absent v = (case v of JUndefined \<Rightarrow> True | JNull \<Rightarrow> True | JStr s \<Rightarrow> True | _ \<Rightarrow> False)"

lemma truthy_not_nullish: "truthy v \<Longrightarrow> \<not> nullish v"
  by (cases v) (simp_all add: nullish_def)

lemma get_property_total: "\<not> nullish v \<Longrightarrow> get_property v key = Inr (property_of v key)"
  by (cases v) (simp_all add: get_property_def nullish_def)

lemma unwrap_total: "\<not> nullish r \<Longrightarrow> unwrap r = Inr (item_of r)"
  by (simp add: unwrap_def get_property_total item_of_def)

lemma item_of_not_nullish: "\<not> nullish r \<Longrightarrow> \<not> nullish (item_of r)"
  by (simp add: item_of_def truthy_not_nullish)

lemma first_truthy_total:
  "\<not> nullish item \<Longrightarrow>
   first_truthy item keys otherwise = Inr (first_of (map (property_of item) keys) otherwise)"
  by (induction keys) (simp_all add: get_property_total first_of_def)

lemma optional_substring_text:
  "text_or_absent v \<Longrightarrow>
   optional_substring v n = Inr (case v of JStr s \<Rightarrow> JStr (take n s) | _ \<Rightarrow> JUndefined)"
  by (cases v) (simp_all add: optional_substring_def text_or_absent_def)

lemma map_results_total:
  assumes "\<forall>x\<in>set xs. f x = Inr (g x)"
  shows "map_results f xs = Inr (map g xs)"
  using assms by (induction xs) simp_all

lemma map_results_length: "map_results f xs = Inr ys \<Longrightarrow> length ys = length xs"
proof (induction xs arbitrary: ys)
  case Nil
  then show ?case by simp
next
  case (Cons x xs)
  then show ?case by (auto split: sum.splits)
qed

subsection \<open>\<open>names\<close> mode\<close>

text \<open>
  The candidates of a record in the priority order of the specification: the four name
  fields, then the first 50 characters of the content.
\<close>

definition priority_candidates :: "jsval \<Rightarrow> jsval list" where
  "priority_candidates item =
     map (property_of item) [''block/name'', ''block/original-name'', ''name'', ''originalName'']
     @ [case property_of item ''content'' of JStr s \<Rightarrow> JStr (take 50 s) | _ \<Rightarrow> JUndefined]"

definition rendered_name :: "jsval \<Rightarrow> jsval" where
  "rendered_name r = first_of (priority_candidates (item_of r)) (JStr ''Unknown'')"

text \<open>
  A row that \<open>names\<close> mode reads without an exception: it is not \<open>null\<close>, and its
  content, when the fallback chain reaches it (none of the four name fields is present),
  is a text or absent.
\<close>

definition names_row :: "jsval \<Rightarrow> bool" where
  "names_row r =
     (\<not> nullish r
      \<and> (list_ex truthy (map (property_of (item_of r)) name_keys)
         \<or> text_or_absent (property_of (item_of r) ''content'')))"

lemma find_append_last:
  "find P (xs @ [y]) = (case find P xs of Some x \<Rightarrow> Some x | None \<Rightarrow> if P y then Some y else None)"
  by (induction xs) simp_all

lemma names_entry_total:
  assumes "names_row r"
  shows "names_entry r = Inr (rendered_name r)"
proof -
  let ?item = "item_of r"
  let ?names = "map (property_of ?item) name_keys"
  from assms have r: "\<not> nullish r"
    and reached: "list_ex truthy ?names \<or> text_or_absent (property_of ?item ''content'')"
    by (simp_all add: names_row_def)
  have i: "\<not> nullish ?item" using r by (rule item_of_not_nullish)
  let ?prefix = "case property_of ?item ''content'' of JStr s \<Rightarrow> JStr (take 50 s) | _ \<Rightarrow> JUndefined"
  have cand: "priority_candidates ?item = ?names @ [?prefix]"
    by (simp add: priority_candidates_def name_keys_def)
  show ?thesis
  proof (cases "find truthy ?names")
    case None
    then have "\<not> list_ex truthy ?names" by (simp add: find_None_iff list_ex_iff)
    with reached have c: "text_or_absent (property_of ?item ''content'')" by simp
    from None show ?thesis
      using unwrap_total [OF r] first_truthy_total [OF i, of name_keys JUndefined]
        get_property_total [OF i, of "''content''"] optional_substring_text [OF c, of 50]
      by (simp add: names_entry_def rendered_name_def first_of_def cand find_append_last)
  next
    case (Some v)
    then have "truthy v" by (auto simp: find_Some_iff)
    with Some show ?thesis
      using unwrap_total [OF r] first_truthy_total [OF i, of name_keys JUndefined]
      by (simp add: names_entry_def rendered_name_def first_of_def cand find_append_last)
  qed
qed

lemma item_of_tuple: "item_of (JArr [JObj kvs]) = JObj kvs"
  by (simp add: item_of_def)

lemma item_of_record:
  "\<not> truthy (property_of (JObj kvs) ''0'') \<Longrightarrow> item_of (JObj kvs) = JObj kvs"
  by (simp add: item_of_def)

lemma names_entry_by_item:
  assumes "\<not> nullish r" "\<not> nullish r'" "item_of r = item_of r'"
  shows "names_entry r = names_entry r'"
  using assms by (simp add: names_entry_def unwrap_total)

text \<open>
  Claim C7: in \<open>names\<close> mode a tuple-wrapped record \<open>[r]\<close> and the bare record \<open>r\<close>
  render alike, the tuple being unwrapped by one level; and the rendered value is the
  first present (truthy) candidate in the order \<open>block/name\<close>, \<open>block/original-name\<close>,
  \<open>name\<close>, \<open>originalName\<close>, first 50 characters of \<open>content\<close> (else \<open>Unknown\<close>).  A
  record is a JSON object that has no truthy member \<open>0\<close> (the test for a tuple is
  \<open>r[0] || r\<close>); the priority reading holds when its content, where present, is a text.
  In particular a record whose first present candidate is its \<open>name\<close> field renders as
  that name in both shapes.
\<close>

theorem names_tuple_and_bare_record:
  assumes "\<not> truthy (property_of (JObj kvs) ''0'')"
  shows "names_entry (JArr [JObj kvs]) = names_entry (JObj kvs)
    \<and> (text_or_absent (property_of (JObj kvs) ''content'') \<longrightarrow>
         names_entry (JObj kvs)
           = Inr (first_of (priority_candidates (JObj kvs)) (JStr ''Unknown''))
         \<and> format_names [JArr [JObj kvs], JObj kvs]
           = Inr (join_element (rendered_name (JObj kvs)) @ ''\<newline>''
                  @ join_element (rendered_name (JObj kvs))))"
proof -
  have i: "item_of (JObj kvs) = JObj kvs" using assms by (rule item_of_record)
  have same: "rendered_name (JArr [JObj kvs]) = rendered_name (JObj kvs)"
    by (simp add: rendered_name_def i item_of_tuple)
  have equal: "names_entry (JArr [JObj kvs]) = names_entry (JObj kvs)"
    by (rule names_entry_by_item) (simp_all add: nullish_def i item_of_tuple)
  have "names_entry (JObj kvs)
        = Inr (first_of (priority_candidates (JObj kvs)) (JStr ''Unknown''))
      \<and> format_names [JArr [JObj kvs], JObj kvs]
        = Inr (join_element (rendered_name (JObj kvs)) @ ''\<newline>''
               @ join_element (rendered_name (JObj kvs)))"
    if content: "text_or_absent (property_of (JObj kvs) ''content'')"
  proof -
    have row: "names_row (JObj kvs)" "names_row (JArr [JObj kvs])"
      using content by (simp_all add: names_row_def nullish_def i item_of_tuple)
    have "names_entry (JObj kvs)
        = Inr (first_of (priority_candidates (JObj kvs)) (JStr ''Unknown''))"
      using names_entry_total [OF row(1)] by (simp add: rendered_name_def i)
    moreover have "format_names [JArr [JObj kvs], JObj kvs]
        = Inr (join_element (rendered_name (JObj kvs)) @ ''\<newline>''
               @ join_element (rendered_name (JObj kvs)))"
      using names_entry_total [OF row(1)] names_entry_total [OF row(2)]
      by (simp add: format_names_def same)
    ultimately show ?thesis by blast
  qed
  with equal show ?thesis by blast
qed

definition project_page :: "(string \<times> jsval) list" where
  "project_page =
     [(''id'', JNum 42), (''name'', JStr ''project alpha''), (''content'', JStr ''notes'')]"

theorem names_tuple_and_bare_record_witness:
  "\<not> truthy (property_of (JObj project_page) ''0'')
   \<and> text_or_absent (property_of (JObj project_page) ''content'')
   \<and> names_entry (JArr [JObj project_page]) = Inr (JStr ''project alpha'')
   \<and> names_entry (JObj project_page) = Inr (JStr ''project alpha'')
   \<and> format_names [JArr [JObj project_page], JObj project_page]
       = Inr ''project alpha\<newline>project alpha''"
proof -
  have h: "\<not> truthy (property_of (JObj project_page) ''0'')"
    "text_or_absent (property_of (JObj project_page) ''content'')"
    by (simp_all add: project_page_def text_or_absent_def)
  have c: "first_of (priority_candidates (JObj project_page)) (JStr ''Unknown'')
      = JStr ''project alpha''"
    by (simp add: first_of_def priority_candidates_def project_page_def)
  have i: "item_of (JObj project_page) = JObj project_page"
    using h(1) by (rule item_of_record)
  from names_tuple_and_bare_record [OF h(1)] h c show ?thesis
    by (simp add: rendered_name_def i join_element_def)
qed

subsection \<open>\<open>names\<close> mode: one entry for each result\<close>

text \<open>The number of lines of a text: none for the empty text, else one more than its
  line feeds.\<close>

definition line_count :: "string \<Rightarrow> nat" where
  "line_count s = (if s = [] then 0 else Suc (length (filter (\<lambda>c. c = CHR 0x0A) s)))"

definition single_line :: "string \<Rightarrow> bool" where
  "single_line s = (s \<noteq> [] \<and> CHR 0x0A \<notin> set s)"

lemma line_count_join:
  "\<forall>s\<in>set ss. single_line s \<Longrightarrow> line_count (join_with ''\<newline>'' ss) = length ss"
proof (induction "''\<newline>''" ss rule: join_with.induct)
  case 1
  show ?case by (simp add: line_count_def)
next
  case (2 x)
  then have "filter (\<lambda>c. c = CHR 0x0A) x = []" by (auto simp: single_line_def filter_empty_conv)
  with 2 show ?case by (simp add: line_count_def single_line_def)
next
  case (3 x y ys)
  then have x: "filter (\<lambda>c. c = CHR 0x0A) x = []" by (auto simp: single_line_def filter_empty_conv)
  from 3 have "line_count (join_with ''\<newline>'' (y # ys)) = length (y # ys)" by simp
  then have "length (filter (\<lambda>c. c = CHR 0x0A) (join_with ''\<newline>'' (y # ys))) = length ys"
    by (simp add: line_count_def split: if_splits)
  with x show ?case by (simp add: line_count_def)
qed

text \<open>A row without any of the name fields and without content.\<close>

definition nameless :: "jsval \<Rightarrow> bool" where
  "nameless r =
     (list_all (\<lambda>key. \<not> truthy (property_of (item_of r) key))
        [''block/name'', ''block/original-name'', ''name'', ''originalName'', ''content''])"

lemma nameless_unknown:
  assumes "names_row r" "nameless r"
  shows "rendered_name r = JStr ''Unknown''"
proof -
  let ?c = "property_of (item_of r) ''content''"
  from assms(2) have "\<not> list_ex truthy (map (property_of (item_of r)) name_keys)"
    by (simp add: nameless_def name_keys_def)
  with assms(1) have "text_or_absent ?c" by (simp add: names_row_def)
  moreover from assms(2) have "\<not> truthy ?c" by (simp add: nameless_def)
  ultimately have "\<not> truthy (case ?c of JStr s \<Rightarrow> JStr (take 50 s) | _ \<Rightarrow> JUndefined)"
    by (cases ?c) (simp_all add: text_or_absent_def)
  with assms(2) show ?thesis
    by (simp add: rendered_name_def first_of_def priority_candidates_def nameless_def)
qed

text \<open>
  Claim C10, as the code has it: for every result list whose rows can be read (no row
  is \<open>null\<close>, and a content that the fallback chain reaches is a text or absent),
  \<open>names\<close> mode renders exactly one entry for each result, in order, and joins the
  entries with line feeds; no result is dropped, and a row with none of the name fields
  and no content renders as \<open>Unknown\<close>.  The output has exactly one line for each result
  when every entry is a single line; an entry taken from a text with a line break spans
  several lines.
\<close>

theorem format_names_entry_per_result:
  assumes "\<forall>r\<in>set rs. names_row r"
  shows "format_names rs
      = Inr (join_with ''\<newline>'' (map (\<lambda>r. join_element (rendered_name r)) rs))
    \<and> (\<forall>r\<in>set rs. names_entry r = Inr (rendered_name r)
          \<and> (nameless r \<longrightarrow> join_element (rendered_name r) = ''Unknown''))
    \<and> ((\<forall>r\<in>set rs. single_line (join_element (rendered_name r))) \<longrightarrow>
          line_count (join_with ''\<newline>'' (map (\<lambda>r. join_element (rendered_name r)) rs))
            = length rs)"
proof -
  let ?entries = "map (\<lambda>r. join_element (rendered_name r)) rs"
  have "map_results names_entry rs = Inr (map rendered_name rs)"
    using assms by (intro map_results_total) (simp add: names_entry_total)
  then have "format_names rs = Inr (join_with ''\<newline>'' ?entries)"
    by (simp add: format_names_def comp_def)
  moreover have "\<forall>r\<in>set rs. names_entry r = Inr (rendered_name r)
      \<and> (nameless r \<longrightarrow> join_element (rendered_name r) = ''Unknown'')"
    using assms by (auto simp: names_entry_total nameless_unknown join_element_def)
  moreover have "(\<forall>r\<in>set rs. single_line (join_element (rendered_name r))) \<longrightarrow>
      line_count (join_with ''\<newline>'' ?entries) = length rs"
    using line_count_join [of ?entries] by simp
  ultimately show ?thesis by blast
qed

text \<open>Four rows: a page, a tuple around a record without name and content, a block with
  content only, and a page whose content is no text (its name is found first).\<close>

definition example_rows :: "jsval list" where
  "example_rows =
     [JObj project_page, JArr [JObj [(''uuid'', JStr ''6123'')]],
      JObj [(''content'', JStr ''buy milk'')],
      JObj [(''name'', JStr ''inbox''), (''content'', JNum 5)]]"

theorem format_names_entry_per_result_witness:
  "list_all names_row example_rows
   \<and> format_names example_rows = Inr ''project alpha\<newline>Unknown\<newline>buy milk\<newline>inbox''
   \<and> line_count ''project alpha\<newline>Unknown\<newline>buy milk\<newline>inbox'' = length example_rows
   \<and> nameless (example_rows ! 1)"
proof -
  have rows: "\<forall>r\<in>set example_rows. names_row r"
    by (simp add: example_rows_def names_row_def nullish_def item_of_def project_page_def
        text_or_absent_def name_keys_def)
  have entries: "map (\<lambda>r. join_element (rendered_name r)) example_rows
      = [''project alpha'', ''Unknown'', ''buy milk'', ''inbox'']"
    by (simp add: example_rows_def rendered_name_def item_of_def project_page_def
        priority_candidates_def first_of_def join_element_def)
  have "nameless (example_rows ! 1)"
    by (simp add: example_rows_def nameless_def item_of_def)
  moreover have "line_count ''project alpha\<newline>Unknown\<newline>buy milk\<newline>inbox''
      = length example_rows"
    by (simp add: line_count_def example_rows_def)
  moreover have "format_names example_rows
      = Inr ''project alpha\<newline>Unknown\<newline>buy milk\<newline>inbox''"
    using format_names_entry_per_result [OF rows] by (simp add: entries)
  ultimately show ?thesis using rows by (simp add: list_all_iff)
qed

text \<open>
  Claim C10 as stated fails.  One result whose entry is taken from a content with a line
  break gives two output lines.  A result list with a \<open>null\<close> row gives no names at all,
  the read \<open>r[0]\<close> throws; and so does a row without a name whose content is a number,
  which has no method \<open>substring\<close>.
\<close>

theorem format_names_not_one_line_per_result:
  "format_names [JObj [(''content'', JStr ''first\<newline>second'')]] = Inr ''first\<newline>second''
   \<and> line_count ''first\<newline>second'' = 2
   \<and> length [JObj [(''content'', JStr ''first\<newline>second'')]] = 1
   \<and> format_names [JNull] = Inl (cannot_read ''null'' ''0'')
   \<and> isl (format_names [JObj [(''content'', JNum 5)]])"
  by (simp add: format_names_def names_entry_def unwrap_def get_property_def name_keys_def
      optional_substring_def join_element_def line_count_def)

subsection \<open>\<open>summary\<close> mode\<close>















subsection \<open>The remote API and \<open>callLogseqApi\<close>\<close>

text \<open>
  What \<open>fetch\<close> gives for one POST: a response with its status, status text and body
  (\<open>None\<close> when the body is not JSON), or no response at all.  The remote is any
  function from the calls made so far and the next request to its answer.  The log
  holds every request with its answer, in order.
\<close>

datatype http_response = Response nat string "jsval option" | Fetch_failed string

type_synonym call = "string \<times> jsval list \<times> http_response"

type_synonym remote = "call list \<Rightarrow> string \<Rightarrow> jsval list \<Rightarrow> http_response"

text \<open>
  The environment of a handler: the configured \<open>LOGSEQ_API_URL\<close>, the remote, the clock
  (\<open>Date.now()\<close>), the time zone of the host, and two functions of the platform that the
  model takes as they are, \<open>JSON.stringify(v, null, 2)\<close> and the parser of \<open>new Date(s)\<close>
  (\<open>None\<close> for an invalid date).
\<close>

record env =
  api_url :: string
  remote :: remote
  clock :: int
  time_zone :: zone
  json_stringify :: "jsval \<Rightarrow> string"
  parse_date :: "string \<Rightarrow> int option"

definition unauthorized_message :: "string \<Rightarrow> string" where
  "unauthorized_message url =
     ''Logseq API authentication failed (401 Unauthorized). ''
     @ ''Please verify:\<newline>''
     @ ''1. The HTTP API is enabled in Logseq (Settings > Features > HTTP APIs Server)\<newline>''
     @ ''2. Your token matches the one in Logseq's \"Authorization token\" setting\<newline>''
     @ ''3. Logseq is running and accessible at '' @ url"

definition callLogseqApi ::
  "env \<Rightarrow> call list \<Rightarrow> string \<Rightarrow> jsval list \<Rightarrow> call list \<times> (error + jsval)" where
  "callLogseqApi e calls method args =
     (let response = remote e calls method args;
          calls' = calls @ [(method, args, response)]
      in case response of
           Fetch_failed m \<Rightarrow> (calls', Inl (TypeError m))
         | Response status statusText body \<Rightarrow>
             if \<not> (200 \<le> status \<and> status \<le> 299)
             then if status = 401 then (calls', Inl (Error (unauthorized_message (api_url e))))
                  else (calls', Inl (Error (''Logseq API error: '' @ show_int (int status) @ '' ''
                                          @ statusText)))
             else (case body of
                     None \<Rightarrow> (calls', Inl (SyntaxError ''Unexpected token in JSON''))
                   | Some v \<Rightarrow> (calls', Inr v)))"

text \<open>Sequencing: what follows runs only when what came before did not throw.\<close>

definition and_then ::
  "call list \<times> (error + 'a) \<Rightarrow> (call list \<Rightarrow> 'a \<Rightarrow> call list \<times> (error + 'b))
     \<Rightarrow> call list \<times> (error + 'b)" where
  "and_then m f = (case m of (calls, Inl e) \<Rightarrow> (calls, Inl e) | (calls, Inr v) \<Rightarrow> f calls v)"

subsection \<open>The handler boundary\<close>

text \<open>
  \<open>try { body } catch (error) { handler }\<close>: what the body throws goes to the handler,
  which returns or throws in its turn; what the body returns is returned.
\<close>

definition try_catch ::
  "call list \<times> (error + 'a) \<Rightarrow> (error \<Rightarrow> error + 'a) \<Rightarrow> call list \<times> (error + 'a)" where
  "try_catch body handler =
     (case body of
        (calls, Inl err) \<Rightarrow> (calls, handler err)
      | (calls, Inr v) \<Rightarrow> (calls, Inr v))"

text \<open>The \<open>catch\<close> clause of a tool handler: it returns the text
  \<open>`<label>${error.message}`\<close>.\<close>

definition error_text :: "string \<Rightarrow> error \<Rightarrow> error + string" where
  "error_text label err = Inr (label @ message err)"

text \<open>
  The handlers of \<open>logseq_read\<close>, \<open>logseq_write\<close> and \<open>logseq_analyze\<close>: each is one
  \<open>try\<close> block around the whole body with the \<open>catch\<close> clause of the tool.  The outcome
  of the body (the log of its calls with the text it returns or the exception it throws)
  is the argument; the handler of \<open>logseq_query\<close> follows with its body.  A handler
  gives the log and the text of its answer (\<open>Inr\<close>) or an exception that leaves it
  (\<open>Inl\<close>).
\<close>

definition logseq_read :: "call list \<times> (error + string) \<Rightarrow> call list \<times> (error + string)" where
  "logseq_read body = try_catch body (error_text ''Read error: '')"

definition logseq_write :: "call list \<times> (error + string) \<Rightarrow> call list \<times> (error + string)" where
  "logseq_write body = try_catch body (error_text ''Write error: '')"

definition logseq_analyze :: "call list \<times> (error + string) \<Rightarrow> call list \<times> (error + string)" where
  "logseq_analyze body = try_catch body (error_text ''Analysis error: '')"

subsection \<open>\<open>logseq_query\<close>\<close>

datatype mode = Pages | Blocks | Datalog | Search | Todos | Journals | Backlinks | Recent

datatype output_mode = Full | Summary | Names

record filters =
  filter_tag :: "string option"
  filter_property :: "string option"
  filter_propertyValue :: "string option"
  filter_dateRange :: "string option"
  filter_journalOnly :: "bool option"
  filter_limit :: "rat option"

text \<open>\<open>filters?.field\<close> as a truthy string, a true flag, a non-zero number.\<close>

definition given :: "filters option \<Rightarrow> (filters \<Rightarrow> string option) \<Rightarrow> string option" where
  "given fs field =
     (case fs of
        None \<Rightarrow> None
      | Some f \<Rightarrow> (case field f of None \<Rightarrow> None | Some s \<Rightarrow> if s = [] then None else Some s))"

definition nonempty :: "string option \<Rightarrow> string option" where
  "nonempty q = (case q of None \<Rightarrow> None | Some s \<Rightarrow> if s = [] then None else Some s)"

definition journal_only :: "filters option \<Rightarrow> bool" where
  "journal_only fs = (case fs of None \<Rightarrow> False | Some f \<Rightarrow> filter_journalOnly f = Some True)"

definition limit_of :: "filters option \<Rightarrow> rat option" where
  "limit_of fs =
     (case fs of
        None \<Rightarrow> None
      | Some f \<Rightarrow> (case filter_limit f of None \<Rightarrow> None | Some l \<Rightarrow> if l = 0 then None else Some l))"

text \<open>The argument that a built query becomes in the request.\<close>

definition query_argument :: "query_value \<Rightarrow> jsval" where
  "query_argument q = (case q of Query_text t \<Rightarrow> JStr t | Inherited_member k \<Rightarrow> JNull)"

definition datascriptQuery :: "env \<Rightarrow> call list \<Rightarrow> string \<Rightarrow> params \<Rightarrow> call list \<times> (error + jsval)" where
  "datascriptQuery e calls queryType ps =
     callLogseqApi e calls ''logseq.DB.datascriptQuery''
       [query_argument (buildDatalogQuery (clock e) queryType ps)]"

text \<open>\<open>results.filter(f)\<close> for a callback that may throw, on any value: only an array has
  the method.\<close>

fun filter_rows :: "(jsval \<Rightarrow> error + bool) \<Rightarrow> jsval list \<Rightarrow> error + jsval list" where
  "filter_rows f [] = Inr []"
| "filter_rows f (x # xs) =
     (case f x of
        Inl e \<Rightarrow> Inl e
      | Inr keep \<Rightarrow>
          (case filter_rows f xs of
             Inl e \<Rightarrow> Inl e
           | Inr ys \<Rightarrow> Inr (if keep then x # ys else ys)))"

definition js_filter :: "(jsval \<Rightarrow> error + bool) \<Rightarrow> jsval \<Rightarrow> error + jsval" where
  "js_filter f results =
     (case results of
        JArr xs \<Rightarrow> (case filter_rows f xs of Inl e \<Rightarrow> Inl e | Inr ys \<Rightarrow> Inr (JArr ys))
      | JUndefined \<Rightarrow> Inl (cannot_read ''undefined'' ''filter'')
      | JNull \<Rightarrow> Inl (cannot_read ''null'' ''filter'')
      | _ \<Rightarrow> Inl (TypeError ''filter is not a function''))"

text \<open>\<open>s.js_includes(t)\<close>.\<close>

definition js_includes :: "string \<Rightarrow> string \<Rightarrow> bool" where
  "js_includes s t = (\<exists>i \<in> set [0..<Suc (length s)]. take (length t) (drop i s) = t)"

text \<open>\<open>p.name?.toLowerCase().js_includes(query.toLowerCase())\<close>.\<close>

definition name_matches :: "string \<Rightarrow> jsval \<Rightarrow> error + bool" where
  "name_matches query p =
     (case get_property p ''name'' of
        Inl e \<Rightarrow> Inl e
      | Inr n \<Rightarrow>
          (case n of
             JUndefined \<Rightarrow> Inr False
           | JNull \<Rightarrow> Inr False
           | JStr s \<Rightarrow> Inr (js_includes (toLowerCase s) (toLowerCase query))
           | _ \<Rightarrow> Inl (TypeError ''p.name?.toLowerCase is not a function'')))"

text \<open>\<open>p['journal?'] === true || p[0]?.['block/journal?']\<close>.\<close>

definition is_journal :: "jsval \<Rightarrow> error + bool" where
  "is_journal p =
     (case get_property p ''journal?'' of
        Inl e \<Rightarrow> Inl e
      | Inr j \<Rightarrow>
          if j = JBool True then Inr True
          else if nullish (property_of p ''0'') then Inr False
          else Inr (truthy (property_of (property_of p ''0'') ''block/journal?'')))"

text \<open>
  The number that arithmetic reads from a value, \<open>None\<close> for \<open>NaN\<close>.  A text is read when
  it is a run of decimal digits; other texts and arrays and objects read as \<open>NaN\<close> in the
  model.
\<close>

definition digit_value :: "char \<Rightarrow> nat option" where
  "digit_value c = map_of (zip ''0123456789'' [0 ..< 10]) c"

fun digits_value :: "string \<Rightarrow> nat \<Rightarrow> nat option" where
  "digits_value [] acc = Some acc"
| "digits_value (c # cs) acc =
     (case digit_value c of None \<Rightarrow> None | Some d \<Rightarrow> digits_value cs (10 * acc + d))"

fun to_number :: "jsval \<Rightarrow> int option" where
  "to_number JUndefined = None"
| "to_number JNull = Some 0"
| "to_number (JBool b) = Some (if b then 1 else 0)"
| "to_number (JNum n) = Some n"
| "to_number (JStr s) = map_option int (digits_value s 0)"
| "to_number (JArr xs) = None"
| "to_number (JObj kvs) = None"

text \<open>The remainder \<open>a % b\<close> of JavaScript, with the sign of \<open>a\<close>.\<close>

definition js_rem :: "int \<Rightarrow> int \<Rightarrow> int" where
  "js_rem a b = sgn a * (\<bar>a\<bar> mod \<bar>b\<bar>)"

text \<open>\<open>new Date(year, month, day)\<close>: the fields are those of a local time, and a year from
  0 to 99 counts from 1900.\<close>

definition new_Date :: "zone \<Rightarrow> int \<Rightarrow> int \<Rightarrow> int \<Rightarrow> int" where
  "new_Date z year month day =
     UTC z (MakeDate (MakeDay (if 0 \<le> year \<and> year \<le> 99 then 1900 + year else year) month day)
              (MakeTime 0 0 0 0))"

text \<open>The callback that keeps the journal pages of a date period.\<close>

definition in_range :: "zone \<Rightarrow> date_range \<Rightarrow> jsval \<Rightarrow> error + bool" where
  "in_range z period j =
     (case unwrap j of
        Inl e \<Rightarrow> Inl e
      | Inr page \<Rightarrow>
          (case first_truthy page [''block/journal-day'', ''journalDay''] JUndefined of
             Inl e \<Rightarrow> Inl e
           | Inr journalDay \<Rightarrow>
               if \<not> truthy journalDay then Inr False
               else (case to_number journalDay of
                       None \<Rightarrow> Inr False
                     | Some n \<Rightarrow>
                         (let year = n div 10000;
                              month = js_rem n 10000 div 100 - 1;
                              day = js_rem n 100;
                              pageDate = new_Date z year month day
                          in Inr (start period \<le> pageDate \<and> pageDate \<le> end_date period)))))"

text \<open>
  The \<open>switch\<close> of the handler: the results of the mode, or the text of an early
  \<open>return\<close>.
\<close>

definition found :: "call list \<times> (error + jsval) \<Rightarrow> call list \<times> (error + string + jsval)" where
  "found m = and_then m (\<lambda>calls v. (calls, Inr (Inr v)))"

definition fetch_results ::
  "env \<Rightarrow> mode \<Rightarrow> string option \<Rightarrow> filters option \<Rightarrow> call list \<times> (error + string + jsval)" where
  "fetch_results e mode query fs =
     (case mode of
        Pages \<Rightarrow>
          and_then
            (case given fs filter_tag of
               Some tag \<Rightarrow> datascriptQuery e [] ''pages_with_tag'' (no_params\<lparr>param_tag := Some tag\<rparr>)
             | None \<Rightarrow>
                 (case (given fs filter_property, given fs filter_propertyValue) of
                    (Some property, Some propertyValue) \<Rightarrow>
                      datascriptQuery e [] ''pages_with_property''
                        (no_params\<lparr>param_property := Some property,
                           param_value := Some propertyValue\<rparr>)
                  | _ \<Rightarrow>
                      and_then (callLogseqApi e [] ''logseq.Editor.getAllPages'' [])
                        (\<lambda>calls allPages.
                           case nonempty query of
                             Some q \<Rightarrow> (calls, js_filter (name_matches q) allPages)
                           | None \<Rightarrow> (calls, Inr allPages))))
            (\<lambda>calls results.
               if journal_only fs
               then (case js_filter is_journal results of
                       Inl e \<Rightarrow> (calls, Inl e)
                     | Inr kept \<Rightarrow> (calls, Inr (Inr kept)))
               else (calls, Inr (Inr results)))
      | Blocks \<Rightarrow>
          (case nonempty query of
             Some q \<Rightarrow> found (datascriptQuery e [] ''blocks_with_text'' (no_params\<lparr>param_text := Some q\<rparr>))
           | None \<Rightarrow>
               (case given fs filter_tag of
                  Some tag \<Rightarrow>
                    found (datascriptQuery e [] ''blocks_with_tag'' (no_params\<lparr>param_tag := Some tag\<rparr>))
                | None \<Rightarrow> ([], Inr (Inr (JArr [])))))
      | Todos \<Rightarrow> found (datascriptQuery e [] ''todos'' no_params)
      | Journals \<Rightarrow>
          (case parseDateRange (time_zone e) (clock e)
                  (case given fs filter_dateRange of Some d \<Rightarrow> d | None \<Rightarrow> ''this week'') of
             Inl err \<Rightarrow> ([], Inl err)
           | Inr period \<Rightarrow>
               and_then (datascriptQuery e [] ''journals'' no_params)
                 (\<lambda>calls allJournals.
                    case js_filter (in_range (time_zone e) period) allJournals of
                      Inl err \<Rightarrow> (calls, Inl err)
                    | Inr kept \<Rightarrow> (calls, Inr (Inr kept))))
      | Backlinks \<Rightarrow>
          (case nonempty query of
             None \<Rightarrow>
               ([], Inr (Inl ''Error: backlinks mode requires a page name in the query parameter''))
           | Some q \<Rightarrow>
               (case callLogseqApi e [] ''logseq.Editor.getPageLinkedReferences'' [JStr q] of
                  (calls, Inr linkedRefs) \<Rightarrow>
                    (calls, Inr (Inr (if truthy linkedRefs then linkedRefs else JArr [])))
                | (calls, Inl err) \<Rightarrow>
                    found (datascriptQuery e calls ''backlinks'' (no_params\<lparr>param_page := Some q\<rparr>))))
      | Recent \<Rightarrow> found (datascriptQuery e [] ''recent_pages'' (no_params\<lparr>param_days := Some 7\<rparr>))
      | Search \<Rightarrow>
          (case nonempty query of
             None \<Rightarrow> ([], Inr (Inl ''Error: search mode requires a query''))
           | Some q \<Rightarrow>
               found (datascriptQuery e [] ''blocks_with_text'' (no_params\<lparr>param_text := Some q\<rparr>)))
      | Datalog \<Rightarrow>
          (case nonempty query of
             None \<Rightarrow> ([], Inr (Inl ''Error: datalog mode requires a Datalog query string''))
           | Some q \<Rightarrow> found (callLogseqApi e [] ''logseq.DB.datascriptQuery'' [JStr q])))"

text \<open>
  \<open>results.slice(0, limit)\<close>: the limit is cut to an integer; a negative limit counts from
  the end.  Only arrays and texts have the method.
\<close>

definition truncate :: "rat \<Rightarrow> int" where
  "truncate x = (if 0 \<le> x then \<lfloor>x\<rfloor> else \<lceil>x\<rceil>)"

definition slice_to :: "rat \<Rightarrow> 'a list \<Rightarrow> 'a list" where
  "slice_to limit xs =
     (let k = truncate limit
      in if k < 0 then take (nat (int (length xs) + k)) xs else take (nat k) xs)"

definition exceeds :: "jsval \<Rightarrow> rat \<Rightarrow> bool" where
  "exceeds len limit = (case to_number len of None \<Rightarrow> False | Some n \<Rightarrow> limit < of_int n)"

definition apply_limit :: "filters option \<Rightarrow> jsval \<Rightarrow> error + jsval" where
  "apply_limit fs results =
     (case limit_of fs of
        None \<Rightarrow> Inr results
      | Some limit \<Rightarrow>
          (case get_property results ''length'' of
             Inl e \<Rightarrow> Inl e
           | Inr len \<Rightarrow>
               if exceeds len limit
               then (case results of
                       JArr xs \<Rightarrow> Inr (JArr (slice_to limit xs))
                     | JStr s \<Rightarrow> Inr (JStr (slice_to limit s))
                     | _ \<Rightarrow> Inl (TypeError ''results.slice is not a function''))
               else Inr results))"

definition format_output :: "env \<Rightarrow> output_mode \<Rightarrow> jsval \<Rightarrow> error + string" where
  "format_output e out_mode results =
     (case out_mode of
        Names \<Rightarrow>
          (case results of
             JArr xs \<Rightarrow> format_names xs
           | JUndefined \<Rightarrow> Inl (cannot_read ''undefined'' ''map'')
           | JNull \<Rightarrow> Inl (cannot_read ''null'' ''map'')
           | _ \<Rightarrow> Inl (TypeError ''results.map is not a function''))
      | Summary \<Rightarrow>
          (case results of
             JArr xs \<Rightarrow> format_summary xs
           | JUndefined \<Rightarrow> Inl (cannot_read ''undefined'' ''length'')
           | JNull \<Rightarrow> Inl (cannot_read ''null'' ''length'')
           | JStr s \<Rightarrow> Inl (TypeError ''results.slice(...).forEach is not a function'')
           | _ \<Rightarrow> Inl (TypeError ''results.slice is not a function''))
      | Full \<Rightarrow> Inr (json_stringify e results))"

text \<open>
  The body of the handler, inside its \<open>try\<close>: the results of the mode, cut to the limit
  and formatted; \<open>output\<close> defaults to \<open>summary\<close>.
\<close>

definition query_body ::
  "env \<Rightarrow> mode \<Rightarrow> string option \<Rightarrow> filters option \<Rightarrow> output_mode option
     \<Rightarrow> call list \<times> (error + string)" where
  "query_body e mode query fs out_mode =
     (case fetch_results e mode query fs of
        (calls, Inl err) \<Rightarrow> (calls, Inl err)
      | (calls, Inr (Inl text)) \<Rightarrow> (calls, Inr text)
      | (calls, Inr (Inr results)) \<Rightarrow>
          (case apply_limit fs results of
             Inl err \<Rightarrow> (calls, Inl err)
           | Inr limited \<Rightarrow>
               (calls,
                format_output e (case out_mode of None \<Rightarrow> Summary | Some out \<Rightarrow> out)
                  limited)))"

text \<open>The handler: the body in its \<open>try\<close>, and the \<open>catch\<close> clause of the tool.\<close>

definition logseq_query ::
  "env \<Rightarrow> mode \<Rightarrow> string option \<Rightarrow> filters option \<Rightarrow> output_mode option
     \<Rightarrow> call list \<times> (error + string)" where
  "logseq_query e mode query fs out_mode =
     try_catch (query_body e mode query fs out_mode) (error_text ''Query error: '')"

subsection \<open>\<open>logseq_query\<close>: a remote that answers 401\<close>

definition response_of :: "call \<Rightarrow> http_response" where
  "response_of c = snd (snd c)"

definition is_unauthorized :: "http_response \<Rightarrow> bool" where
  "is_unauthorized r = (case r of Response status statusText body \<Rightarrow> status = 401 | Fetch_failed m \<Rightarrow> False)"

text \<open>
  One call of the handler has a \<open>try\<close> of its own: the lookup of the linked references
  in \<open>backlinks\<close> mode, whose failure is caught and followed by the fallback query.
  \<open>refused\<close> says that some other call of a log was answered with 401.
\<close>

definition guarded :: "call \<Rightarrow> bool" where
  "guarded c = (fst c = ''logseq.Editor.getPageLinkedReferences'')"

definition refused :: "call list \<Rightarrow> bool" where
  "refused calls = list_ex (\<lambda>c. is_unauthorized (response_of c) \<and> \<not> guarded c) calls"

text \<open>A computation that throws the authentication error when a call of its log that is
  not guarded was answered with 401.\<close>

definition surfaces_401 :: "env \<Rightarrow> call list \<times> (error + 'a) \<Rightarrow> bool" where
  "surfaces_401 e m =
     (if refused (fst m) then snd m = Inl (Error (unauthorized_message (api_url e)))
      else True)"

lemma callLogseqApi_calls:
  "fst (callLogseqApi e calls method args) = calls @ [(method, args, remote e calls method args)]"
  by (simp add: callLogseqApi_def Let_def split: http_response.splits option.splits)

lemma callLogseqApi_unauthorized:
  "is_unauthorized (remote e calls method args) \<Longrightarrow>
   snd (callLogseqApi e calls method args) = Inl (Error (unauthorized_message (api_url e)))"
  by (simp add: callLogseqApi_def Let_def is_unauthorized_def split: http_response.splits)

lemma surfaces_401_call:
  "\<not> refused calls \<Longrightarrow> surfaces_401 e (callLogseqApi e calls method args)"
  by (simp add: surfaces_401_def refused_def callLogseqApi_calls response_of_def
      callLogseqApi_unauthorized)

lemma surfaces_401_no_calls: "surfaces_401 e ([], r)"
  by (simp add: surfaces_401_def refused_def)

lemma not_refused_Nil: "\<not> refused []"
  by (simp add: refused_def)

lemma surfaces_401_and_then:
  assumes "surfaces_401 e m" and "\<And>calls v. fst (f calls v) = calls"
  shows "surfaces_401 e (and_then m f)"
proof (cases m)
  case (Pair calls r)
  show ?thesis
  proof (cases r)
    case (Inl err)
    with Pair assms(1) show ?thesis
      by (auto simp: and_then_def surfaces_401_def split: if_splits)
  next
    case (Inr v)
    with Pair assms(1) have "\<not> refused calls"
      by (auto simp: surfaces_401_def split: if_splits)
    moreover have "fst (f calls v) = calls" by (rule assms(2))
    ultimately show ?thesis using Pair Inr by (simp add: and_then_def surfaces_401_def)
  qed
qed

lemma surfaces_401_found: "surfaces_401 e m \<Longrightarrow> surfaces_401 e (found m)"
  unfolding found_def by (rule surfaces_401_and_then) simp_all

lemma surfaces_401_datascriptQuery:
  "\<not> refused calls \<Longrightarrow> surfaces_401 e (datascriptQuery e calls queryType ps)"
  by (simp add: datascriptQuery_def surfaces_401_call)

lemma surfaces_401_pages:
  "surfaces_401 e (fetch_results e Pages query fs)"
proof -
  have step: "\<And>m. surfaces_401 e m \<Longrightarrow>
      surfaces_401 e (and_then m (\<lambda>calls results.
               if journal_only fs
               then (case js_filter is_journal results of
                       Inl e \<Rightarrow> (calls, Inl e)
                     | Inr kept \<Rightarrow> (calls, Inr (Inr kept)))
               else (calls, Inr (Inr results))))"
    by (rule surfaces_401_and_then) (simp_all split: sum.splits)
  have all: "surfaces_401 e (and_then (callLogseqApi e [] ''logseq.Editor.getAllPages'' [])
                        (\<lambda>calls allPages.
                           case nonempty query of
                             Some q \<Rightarrow> (calls, js_filter (name_matches q) allPages)
                           | None \<Rightarrow> (calls, Inr allPages)))"
    by (rule surfaces_401_and_then)
      (simp_all add: surfaces_401_call not_refused_Nil split: option.splits)
  show ?thesis
    unfolding fetch_results_def mode.case
    by (rule step) (simp add: surfaces_401_datascriptQuery not_refused_Nil all split: option.splits)
qed

lemma surfaces_401_journals:
  "surfaces_401 e (fetch_results e Journals query fs)"
proof -
  have "\<And>period. surfaces_401 e (and_then (datascriptQuery e [] ''journals'' no_params)
                 (\<lambda>calls allJournals.
                    case js_filter (in_range (time_zone e) period) allJournals of
                      Inl err \<Rightarrow> (calls, Inl err)
                    | Inr kept \<Rightarrow> (calls, Inr (Inr kept))))"
    by (rule surfaces_401_and_then)
      (simp_all add: surfaces_401_datascriptQuery not_refused_Nil split: sum.splits)
  then show ?thesis
    by (auto simp: fetch_results_def surfaces_401_no_calls split: sum.splits)
qed

lemma surfaces_401_backlinks:
  "surfaces_401 e (fetch_results e Backlinks query fs)"
proof (cases "nonempty query")
  case None
  then show ?thesis by (simp add: fetch_results_def surfaces_401_no_calls)
next
  case (Some q)
  let ?first = "callLogseqApi e [] ''logseq.Editor.getPageLinkedReferences'' [JStr q]"
  obtain calls r where first: "?first = (calls, r)" by (cases ?first)
  with callLogseqApi_calls [of e "[]" "''logseq.Editor.getPageLinkedReferences''" "[JStr q]"]
  have calm: "\<not> refused calls" by (simp add: refused_def guarded_def)
  show ?thesis
  proof (cases r)
    case (Inl err)
    with Some first calm show ?thesis
      by (simp add: fetch_results_def surfaces_401_found surfaces_401_datascriptQuery)
  next
    case (Inr linkedRefs)
    with Some first calm show ?thesis
      by (simp add: fetch_results_def surfaces_401_def)
  qed
qed

lemma surfaces_401_fetch_results: "surfaces_401 e (fetch_results e mode query fs)"
proof (cases mode)
  case Pages
  then show ?thesis by (simp add: surfaces_401_pages)
next
  case Blocks
  then show ?thesis
    by (simp add: fetch_results_def surfaces_401_found surfaces_401_datascriptQuery
        not_refused_Nil surfaces_401_no_calls split: option.splits)
next
  case Datalog
  then show ?thesis
    by (simp add: fetch_results_def surfaces_401_found surfaces_401_call not_refused_Nil
        surfaces_401_no_calls split: option.splits)
next
  case Search
  then show ?thesis
    by (simp add: fetch_results_def surfaces_401_found surfaces_401_datascriptQuery
        not_refused_Nil surfaces_401_no_calls split: option.splits)
next
  case Todos
  then show ?thesis
    by (simp add: fetch_results_def surfaces_401_found surfaces_401_datascriptQuery
        not_refused_Nil)
next
  case Journals
  then show ?thesis by (simp add: surfaces_401_journals)
next
  case Backlinks
  then show ?thesis by (simp add: surfaces_401_backlinks)
next
  case Recent
  then show ?thesis
    by (simp add: fetch_results_def surfaces_401_found surfaces_401_datascriptQuery
        not_refused_Nil)
qed

lemma found_calls: "fst (found m) = fst m"
  by (cases m) (auto simp: found_def and_then_def split: sum.splits)

text \<open>
  Against a remote that answers 401 to whatever it is asked, the query handler either
  makes no call (a mode that lacks its query returns its own message) or makes a call
  that is refused and not guarded: in \<open>backlinks\<close> mode the fallback query is refused as
  well.
\<close>

lemma and_then_calls:
  assumes "\<And>calls v. fst (f calls v) = calls"
  shows "fst (and_then m f) = fst m"
  using assms by (cases m) (auto simp: and_then_def split: sum.splits)

lemma refused_call:
  assumes "\<forall>calls method args. is_unauthorized (remote e calls method args)"
    and "method \<noteq> ''logseq.Editor.getPageLinkedReferences''"
  shows "refused (fst (callLogseqApi e calls method args))"
  using assms by (simp add: refused_def guarded_def callLogseqApi_calls response_of_def)

lemma refused_datascriptQuery:
  assumes "\<forall>calls method args. is_unauthorized (remote e calls method args)"
  shows "refused (fst (datascriptQuery e calls queryType ps))"
  unfolding datascriptQuery_def by (rule refused_call [OF assms]) simp

lemma refused_fetch_results:
  assumes "\<forall>calls method args. is_unauthorized (remote e calls method args)"
  shows "fst (fetch_results e mode query fs) = [] \<or> refused (fst (fetch_results e mode query fs))"
proof -
  note ask = refused_datascriptQuery [OF assms]
  have all_pages: "refused (fst (callLogseqApi e [] ''logseq.Editor.getAllPages'' []))"
    by (rule refused_call [OF assms]) simp
  show ?thesis
  proof (cases mode)
    case Pages
    have "fst (fetch_results e Pages query fs)
        = fst (case given fs filter_tag of
               Some tag \<Rightarrow> datascriptQuery e [] ''pages_with_tag'' (no_params\<lparr>param_tag := Some tag\<rparr>)
             | None \<Rightarrow>
                 (case (given fs filter_property, given fs filter_propertyValue) of
                    (Some property, Some propertyValue) \<Rightarrow>
                      datascriptQuery e [] ''pages_with_property''
                        (no_params\<lparr>param_property := Some property,
                           param_value := Some propertyValue\<rparr>)
                  | _ \<Rightarrow>
                      and_then (callLogseqApi e [] ''logseq.Editor.getAllPages'' [])
                        (\<lambda>calls allPages.
                           case nonempty query of
                             Some q \<Rightarrow> (calls, js_filter (name_matches q) allPages)
                           | None \<Rightarrow> (calls, Inr allPages))))"
      unfolding fetch_results_def mode.case
      by (rule and_then_calls) (simp split: sum.splits)
    moreover have "fst (and_then (callLogseqApi e [] ''logseq.Editor.getAllPages'' [])
                        (\<lambda>calls allPages.
                           case nonempty query of
                             Some q \<Rightarrow> (calls, js_filter (name_matches q) allPages)
                           | None \<Rightarrow> (calls, Inr allPages)))
        = fst (callLogseqApi e [] ''logseq.Editor.getAllPages'' [])"
      by (rule and_then_calls) (simp split: option.splits)
    ultimately show ?thesis
      using Pages ask all_pages by (simp split: option.splits)
  next
    case Blocks
    then show ?thesis
      using ask by (simp add: fetch_results_def found_calls split: option.splits)
  next
    case Datalog
    have "refused (fst (callLogseqApi e [] ''logseq.DB.datascriptQuery'' [JStr q]))" for q
      by (rule refused_call [OF assms]) simp
    with Datalog show ?thesis
      by (simp add: fetch_results_def found_calls split: option.splits)
  next
    case Search
    then show ?thesis
      using ask by (simp add: fetch_results_def found_calls split: option.splits)
  next
    case Todos
    then show ?thesis
      using ask by (simp add: fetch_results_def found_calls)
  next
    case Journals
    let ?parsed = "parseDateRange (time_zone e) (clock e)
                  (case given fs filter_dateRange of Some d \<Rightarrow> d | None \<Rightarrow> ''this week'')"
    show ?thesis
    proof (cases ?parsed)
      case (Inl err)
      with Journals show ?thesis by (simp add: fetch_results_def)
    next
      case (Inr period)
      have "fetch_results e Journals query fs
          = and_then (datascriptQuery e [] ''journals'' no_params)
                 (\<lambda>calls allJournals.
                    case js_filter (in_range (time_zone e) period) allJournals of
                      Inl err \<Rightarrow> (calls, Inl err)
                    | Inr kept \<Rightarrow> (calls, Inr (Inr kept)))"
        using Inr by (simp add: fetch_results_def)
      then have "fst (fetch_results e Journals query fs)
          = fst (datascriptQuery e [] ''journals'' no_params)"
        by (simp only:) (rule and_then_calls, simp split: sum.splits)
      then show ?thesis
        using Journals ask by simp
    qed
  next
    case Backlinks
    show ?thesis
    proof (cases "nonempty query")
      case None
      with Backlinks show ?thesis by (simp add: fetch_results_def)
    next
      case (Some q)
      let ?first = "callLogseqApi e [] ''logseq.Editor.getPageLinkedReferences'' [JStr q]"
      obtain calls r where c: "?first = (calls, r)" by (cases ?first)
      have "snd ?first = Inl (Error (unauthorized_message (api_url e)))"
        using assms by (intro callLogseqApi_unauthorized) simp
      with c have "r = Inl (Error (unauthorized_message (api_url e)))" by simp
      with Backlinks Some c ask show ?thesis
        by (simp add: fetch_results_def found_calls)
    qed
  next
    case Recent
    then show ?thesis
      using ask by (simp add: fetch_results_def found_calls)
  qed
qed

lemma query_body_calls:
  "fst (query_body e mode query fs out_mode) = fst (fetch_results e mode query fs)"
  by (cases "fetch_results e mode query fs") (auto simp: query_body_def split: sum.splits)

lemma try_catch_calls: "fst (try_catch body handler) = fst body"
  by (cases body) (auto simp: try_catch_def split: sum.splits)

lemma logseq_query_calls:
  "fst (logseq_query e mode query fs out_mode) = fst (fetch_results e mode query fs)"
  by (simp add: logseq_query_def try_catch_calls query_body_calls)

lemma logseq_query_error:
  "snd (fetch_results e mode query fs) = Inl err \<Longrightarrow>
   snd (logseq_query e mode query fs out_mode) = Inr (''Query error: '' @ message err)"
  by (cases "fetch_results e mode query fs")
    (auto simp: logseq_query_def query_body_def try_catch_def error_text_def split: sum.splits)

text \<open>The boundary: whatever the body returns or throws, the handler returns a text.\<close>

lemma try_catch_returns: "\<exists>text. snd (try_catch body (error_text label)) = Inr text"
proof (cases body)
  case (Pair calls outcome)
  then show ?thesis
    by (cases outcome) (simp_all add: try_catch_def error_text_def)
qed

lemma unauthorized_message_guidance:
  "sublist ''Authorization token'' (unauthorized_message url)"
  "suffix url (unauthorized_message url)"
proof -
  show "sublist ''Authorization token'' (unauthorized_message url)"
    unfolding sublist_def unauthorized_message_def
    by (rule exI [of _ "''Logseq API authentication failed (401 Unauthorized). Please verify:\<newline>1. The HTTP API is enabled in Logseq (Settings > Features > HTTP APIs Server)\<newline>2. Your token matches the one in Logseq's \"''"],
        rule exI [of _ "''\" setting\<newline>3. Logseq is running and accessible at '' @ url"]) simp
  show "suffix url (unauthorized_message url)"
    unfolding suffix_def unauthorized_message_def by (metis append.assoc)
qed

text \<open>
  Claim C8, as the code has it.  When the remote answers with HTTP 401 a call of the
  query handler other than the lookup of the linked references in \<open>backlinks\<close> mode, the
  handler returns the text \<open>Query error:\<close> followed by the authentication guidance,
  which names the authorization token setting and ends with the configured API URL; in
  particular it does so whenever the remote answers every call with 401 and the handler
  makes a call.  And no exception leaves a tool handler: for every request and every
  remote the handler of \<open>logseq_query\<close> returns a text, and so do the handlers of
  \<open>logseq_read\<close>, \<open>logseq_write\<close> and \<open>logseq_analyze\<close> whatever their bodies return or
  throw.
\<close>

theorem logseq_query_unauthorized:
  "(refused (fst (logseq_query e mode query fs out_mode)) \<longrightarrow>
      snd (logseq_query e mode query fs out_mode)
        = Inr (''Query error: '' @ unauthorized_message (api_url e))
      \<and> prefix ''Query error:'' (''Query error: '' @ unauthorized_message (api_url e))
      \<and> sublist ''Authorization token'' (''Query error: '' @ unauthorized_message (api_url e))
      \<and> suffix (api_url e) (''Query error: '' @ unauthorized_message (api_url e)))
   \<and> ((\<forall>calls method args. is_unauthorized (remote e calls method args))
        \<and> fst (logseq_query e mode query fs out_mode) \<noteq> [] \<longrightarrow>
      snd (logseq_query e mode query fs out_mode)
        = Inr (''Query error: '' @ unauthorized_message (api_url e)))
   \<and> (\<exists>text. snd (logseq_query e mode query fs out_mode) = Inr text)
   \<and> (\<exists>text. snd (logseq_read read_body) = Inr text)
   \<and> (\<exists>text. snd (logseq_write write_body) = Inr text)
   \<and> (\<exists>text. snd (logseq_analyze analyze_body) = Inr text)"
proof -
  have surfaced: "snd (logseq_query e mode query fs out_mode)
      = Inr (''Query error: '' @ unauthorized_message (api_url e))"
    if "refused (fst (logseq_query e mode query fs out_mode))"
  proof -
    from that have "refused (fst (fetch_results e mode query fs))"
      by (simp add: logseq_query_calls)
    with surfaces_401_fetch_results [of e mode query fs]
    have "snd (fetch_results e mode query fs) = Inl (Error (unauthorized_message (api_url e)))"
      by (simp add: surfaces_401_def)
    from logseq_query_error [OF this] show ?thesis by simp
  qed
  have "snd (logseq_query e mode query fs out_mode)
      = Inr (''Query error: '' @ unauthorized_message (api_url e))"
    if "\<forall>calls method args. is_unauthorized (remote e calls method args)"
      and "fst (logseq_query e mode query fs out_mode) \<noteq> []"
  proof -
    from that(2) refused_fetch_results [OF that(1), of mode query fs]
    have "refused (fst (logseq_query e mode query fs out_mode))"
      by (simp add: logseq_query_calls)
    then show ?thesis by (rule surfaced)
  qed
  moreover note surfaced
  moreover have "prefix ''Query error:'' (''Query error: '' @ unauthorized_message (api_url e))"
    by (simp add: prefix_def)
  moreover have "sublist ''Authorization token''
      (''Query error: '' @ unauthorized_message (api_url e))"
  proof -
    from unauthorized_message_guidance(1) [of "api_url e"] obtain ps ss
      where "unauthorized_message (api_url e) = ps @ ''Authorization token'' @ ss"
      by (auto simp: sublist_def)
    then have "''Query error: '' @ unauthorized_message (api_url e)
        = (''Query error: '' @ ps) @ ''Authorization token'' @ ss"
      by simp
    then show ?thesis unfolding sublist_def by blast
  qed
  moreover have "suffix (api_url e) (''Query error: '' @ unauthorized_message (api_url e))"
    using unauthorized_message_guidance(2) by (rule suffix_appendI)
  moreover have "\<exists>text. snd (logseq_query e mode query fs out_mode) = Inr text"
    unfolding logseq_query_def by (rule try_catch_returns)
  moreover have "\<exists>text. snd (logseq_read read_body) = Inr text"
    unfolding logseq_read_def by (rule try_catch_returns)
  moreover have "\<exists>text. snd (logseq_write write_body) = Inr text"
    unfolding logseq_write_def by (rule try_catch_returns)
  moreover have "\<exists>text. snd (logseq_analyze analyze_body) = Inr text"
    unfolding logseq_analyze_def by (rule try_catch_returns)
  ultimately show ?thesis by blast
qed

text \<open>A remote that answers every call with 401, asked for the tasks; and a body of the
  read handler that throws a \<open>TypeError\<close>.\<close>

definition refusing_env :: env where
  "refusing_env =
     \<lparr>api_url = ''http://127.0.0.1:12315/api'',
      remote = (\<lambda>calls method args. Response 401 ''Unauthorized'' None),
      clock = 1741910400123, time_zone = spring_forward,
      json_stringify = (\<lambda>v. []), parse_date = (\<lambda>s. None)\<rparr>"

theorem logseq_query_unauthorized_witness:
  "refused (fst (logseq_query refusing_env Todos None None None))
   \<and> (\<forall>calls method args. is_unauthorized (remote refusing_env calls method args))
   \<and> snd (logseq_query refusing_env Todos None None None)
     = Inr (''Query error: '' @ unauthorized_message ''http://127.0.0.1:12315/api'')
   \<and> length (fst (logseq_query refusing_env Todos None None None)) = 1
   \<and> snd (logseq_read ([], Inl (cannot_read ''null'' ''filter'')))
     = Inr ''Read error: Cannot read properties of null (reading 'filter')''"
proof -
  have calls: "fst (logseq_query refusing_env Todos None None None)
      = [(''logseq.DB.datascriptQuery'',
          [query_argument (buildDatalogQuery 1741910400123 ''todos'' no_params)],
          Response 401 ''Unauthorized'' None)]"
    by (simp add: logseq_query_calls fetch_results_def found_calls datascriptQuery_def
        callLogseqApi_calls refusing_env_def)
  then have h: "refused (fst (logseq_query refusing_env Todos None None None))"
    by (simp add: refused_def guarded_def response_of_def is_unauthorized_def)
  have "snd (logseq_read ([], Inl (cannot_read ''null'' ''filter'')))
      = Inr ''Read error: Cannot read properties of null (reading 'filter')''"
    by (simp add: logseq_read_def try_catch_def error_text_def cannot_read_def)
  moreover have "\<forall>calls method args. is_unauthorized (remote refusing_env calls method args)"
    by (simp add: refusing_env_def is_unauthorized_def)
  ultimately show ?thesis
    using logseq_query_unauthorized [of refusing_env Todos None None None] h calls
    by (simp add: refusing_env_def)
qed

text \<open>
  Claim C8 as stated fails in \<open>backlinks\<close> mode, which catches the failure of its first
  call and falls back to a query: a remote that answers 401 to the lookup of the linked
  references and then answers the query gives results, not an error text.
\<close>

definition refusing_once_env :: env where
  "refusing_once_env =
     \<lparr>api_url = ''http://127.0.0.1:12315/api'',
      remote = (\<lambda>calls method args.
        if calls = [] then Response 401 ''Unauthorized'' None
        else Response 200 ''OK'' (Some (JArr []))),
      clock = 1741910400123, time_zone = spring_forward,
      json_stringify = (\<lambda>v. []), parse_date = (\<lambda>s. None)\<rparr>"

theorem backlinks_falls_back:
  "snd (logseq_query refusing_once_env Backlinks (Some ''project alpha'') None None)
     = Inr ''Found 0 results:\<newline>\<newline>''
   \<and> map fst (fst (logseq_query refusing_once_env Backlinks (Some ''project alpha'') None None))
     = [''logseq.Editor.getPageLinkedReferences'', ''logseq.DB.datascriptQuery'']
   \<and> map (\<lambda>c. is_unauthorized (response_of c))
       (fst (logseq_query refusing_once_env Backlinks (Some ''project alpha'') None None))
     = [True, False]"
proof -
  let ?first = "(''logseq.Editor.getPageLinkedReferences'', [JStr ''project alpha''],
      Response 401 ''Unauthorized'' None)"
  let ?query = "[query_argument (buildDatalogQuery 1741910400123 ''backlinks''
      (no_params\<lparr>param_page := Some ''project alpha''\<rparr>))]"
  have first: "callLogseqApi refusing_once_env [] ''logseq.Editor.getPageLinkedReferences''
      [JStr ''project alpha'']
      = ([?first], Inl (Error (unauthorized_message ''http://127.0.0.1:12315/api'')))"
    by (simp add: callLogseqApi_def refusing_once_env_def)
  have second: "datascriptQuery refusing_once_env [?first] ''backlinks''
      (no_params\<lparr>param_page := Some ''project alpha''\<rparr>)
      = ([?first, (''logseq.DB.datascriptQuery'', ?query, Response 200 ''OK'' (Some (JArr [])))],
         Inr (JArr []))"
    by (simp add: datascriptQuery_def callLogseqApi_def refusing_once_env_def)
  have "fetch_results refusing_once_env Backlinks (Some ''project alpha'') None
      = ([?first, (''logseq.DB.datascriptQuery'', ?query, Response 200 ''OK'' (Some (JArr [])))],
         Inr (Inr (JArr [])))"
    by (simp add: fetch_results_def nonempty_def first second found_def and_then_def)
  then show ?thesis
    by (simp add: logseq_query_def query_body_def try_catch_def apply_limit_def limit_of_def
        format_output_def format_summary_def show_int_def digits.simps digit_char_def
        response_of_def is_unauthorized_def)
qed

subsection \<open>\<open>logseq_query\<close>: the limit\<close>

definition answer_body :: "http_response \<Rightarrow> jsval option" where
  "answer_body r =
     (case r of
        Response status statusText body \<Rightarrow> if 200 \<le> status \<and> status \<le> 299 then body else None
      | Fetch_failed m \<Rightarrow> None)"

lemma callLogseqApi_answer:
  assumes "answer_body (remote e calls method args) = Some v"
  shows "callLogseqApi e calls method args
    = (calls @ [(method, args, remote e calls method args)], Inr v)"
  using assms
  by (auto simp: callLogseqApi_def answer_body_def Let_def
      split: http_response.splits option.splits if_splits)

lemma truncate_positive: "0 < l \<Longrightarrow> truncate l = \<lfloor>l\<rfloor>"
  by (simp add: truncate_def)

lemma apply_limit_rows:
  assumes "filter_limit f = Some l" "0 < l" "l < of_nat (length rows)"
  shows "apply_limit (Some f) (JArr rows) = Inr (JArr (take (nat \<lfloor>l\<rfloor>) rows))"
proof -
  have "limit_of (Some f) = Some l" using assms(1,2) by (simp add: limit_of_def)
  moreover have "exceeds (JNum (int (length rows))) l"
    using assms(3) by (simp add: exceeds_def)
  moreover have "0 \<le> \<lfloor>l\<rfloor>" using assms(2) by simp
  ultimately show ?thesis
    using assms(2)
    by (simp add: apply_limit_def get_property_def slice_to_def truncate_positive Let_def)
qed

text \<open>
  Claim C9: in \<open>datalog\<close> mode, when the raw query returns rows and \<open>filters.limit\<close> is a
  positive number smaller than their count, the formatter receives exactly the first
  \<open>limit\<close> rows, in their order (a fractional limit is cut to the integer below it); so
  with a limit of 5 and 9 rows it receives the first 5.
\<close>

theorem datalog_limit_first_rows:
  assumes "q \<noteq> []"
    and "answer_body (remote e [] ''logseq.DB.datascriptQuery'' [JStr q]) = Some (JArr rows)"
    and "filter_limit f = Some l" and "0 < l" and "l < of_nat (length rows)"
  shows "apply_limit (Some f) (JArr rows) = Inr (JArr (take (nat \<lfloor>l\<rfloor>) rows))
    \<and> snd (logseq_query e Datalog (Some q) (Some f) out_mode)
      = Inr (case format_output e (case out_mode of None \<Rightarrow> Summary | Some out \<Rightarrow> out)
                    (JArr (take (nat \<lfloor>l\<rfloor>) rows)) of
               Inl err \<Rightarrow> ''Query error: '' @ message err
             | Inr outputText \<Rightarrow> outputText)
    \<and> length (take (nat \<lfloor>l\<rfloor>) rows) = nat \<lfloor>l\<rfloor>
    \<and> (l = 5 \<and> length rows = 9 \<longrightarrow> take (nat \<lfloor>l\<rfloor>) rows = take 5 rows)"
proof -
  have limited: "apply_limit (Some f) (JArr rows) = Inr (JArr (take (nat \<lfloor>l\<rfloor>) rows))"
    using assms(3-5) by (rule apply_limit_rows)
  have "fetch_results e Datalog (Some q) (Some f)
      = ([(''logseq.DB.datascriptQuery'', [JStr q],
           remote e [] ''logseq.DB.datascriptQuery'' [JStr q])], Inr (Inr (JArr rows)))"
    using assms(1) callLogseqApi_answer [OF assms(2)]
    by (simp add: fetch_results_def nonempty_def found_def and_then_def)
  then have "snd (logseq_query e Datalog (Some q) (Some f) out_mode)
      = Inr (case format_output e (case out_mode of None \<Rightarrow> Summary | Some out \<Rightarrow> out)
                    (JArr (take (nat \<lfloor>l\<rfloor>) rows)) of
               Inl err \<Rightarrow> ''Query error: '' @ message err
             | Inr outputText \<Rightarrow> outputText)"
    by (simp add: logseq_query_def query_body_def try_catch_def error_text_def limited
        split: sum.splits)
  moreover have "nat \<lfloor>l\<rfloor> \<le> length rows"
  proof -
    have "of_int \<lfloor>l\<rfloor> \<le> l" by simp
    also have "l < of_nat (length rows)" by (rule assms(5))
    finally have "\<lfloor>l\<rfloor> < int (length rows)" by (simp add: of_int_less_iff [symmetric, where ?'a = rat] del: of_int_less_iff)
    then show ?thesis by simp
  qed
  then have "length (take (nat \<lfloor>l\<rfloor>) rows) = nat \<lfloor>l\<rfloor>" by simp
  moreover have "l = 5 \<and> length rows = 9 \<longrightarrow> take (nat \<lfloor>l\<rfloor>) rows = take 5 rows"
    by auto
  ultimately show ?thesis using limited by simp
qed

definition nine_rows :: "jsval list" where
  "nine_rows =
     map (\<lambda>n. JArr [JObj [(''block/name'', JStr n)]])
       [''p1'', ''p2'', ''p3'', ''p4'', ''p5'', ''p6'', ''p7'', ''p8'', ''p9'']"

definition answering_env :: "jsval \<Rightarrow> env" where
  "answering_env body =
     \<lparr>api_url = ''http://127.0.0.1:12315/api'',
      remote = (\<lambda>calls method args. Response 200 ''OK'' (Some body)),
      clock = 1741910400123, time_zone = spring_forward,
      json_stringify = (\<lambda>v. []), parse_date = (\<lambda>s. None)\<rparr>"

definition limit_5 :: filters where
  "limit_5 =
     \<lparr>filter_tag = None, filter_property = None, filter_propertyValue = None,
      filter_dateRange = None, filter_journalOnly = None, filter_limit = Some 5\<rparr>"

theorem datalog_limit_first_rows_witness:
  "length nine_rows = 9 \<and> filter_limit limit_5 = Some 5
   \<and> snd (logseq_query (answering_env (JArr nine_rows)) Datalog
            (Some ''[:find (pull ?p [*]) :where [?p :block/name]]'') (Some limit_5) (Some Names))
     = Inr ''p1\<newline>p2\<newline>p3\<newline>p4\<newline>p5''"
proof -
  let ?q = "''[:find (pull ?p [*]) :where [?p :block/name]]''"
  have q: "?q \<noteq> []" by simp
  have body: "answer_body (remote (answering_env (JArr nine_rows)) [] ''logseq.DB.datascriptQuery''
      [JStr ?q]) = Some (JArr nine_rows)"
    by (simp add: answering_env_def answer_body_def)
  have l: "filter_limit limit_5 = Some 5" "(0::rat) < 5" "(5::rat) < of_nat (length nine_rows)"
    by (simp_all add: limit_5_def nine_rows_def)
  have five: "take (nat \<lfloor>5::rat\<rfloor>) nine_rows
      = map (\<lambda>n. JArr [JObj [(''block/name'', JStr n)]]) [''p1'', ''p2'', ''p3'', ''p4'', ''p5'']"
    by (simp add: nine_rows_def)
  have "format_output (answering_env (JArr nine_rows)) Names (JArr (take (nat \<lfloor>5::rat\<rfloor>) nine_rows))
      = Inr ''p1\<newline>p2\<newline>p3\<newline>p4\<newline>p5''"
    unfolding five
    by (simp add: format_output_def format_names_def names_entry_def unwrap_def get_property_def
        name_keys_def join_element_def)
  with datalog_limit_first_rows [OF q body l, of "Some Names"] l(1) show ?thesis
    by (simp add: nine_rows_def)
qed

subsection \<open>\<open>formatJournalDate\<close> and the \<open>append_to_journal\<close> operation of \<open>logseq_write\<close>\<close>

definition formatJournalDate :: "zone \<Rightarrow> int \<Rightarrow> string" where
  "formatJournalDate z date =
     (let month = toLowerCase (month_short (getMonth z date));
          day = getDate z date;
          year = getFullYear z date;
          suffix =
            (if 11 \<le> day \<and> day \<le> 13 then ''th''
             else [''th'', ''st'', ''nd'', ''rd'', ''th'', ''th'', ''th'', ''th'', ''th'', ''th'']
                    ! nat (day mod 10))
      in month @ '' '' @ show_int day @ suffix @ '', '' @ show_int year)"

text \<open>\<open>s.split('\n')\<close>.\<close>

fun split_lines :: "string \<Rightarrow> string list" where
  "split_lines [] = [[]]"
| "split_lines (c # cs) =
     (if c = CHR 0x0A then [] # split_lines cs
      else (case split_lines cs of
              [] \<Rightarrow> [[c]]
            | l # ls \<Rightarrow> (c # l) # ls))"

text \<open>The loop that appends one block for each line, each call awaited before the next.\<close>

fun append_blocks ::
  "env \<Rightarrow> call list \<Rightarrow> string \<Rightarrow> string list \<Rightarrow> call list \<times> (error + unit)" where
  "append_blocks e calls pageName [] = (calls, Inr ())"
| "append_blocks e calls pageName (line # lines) =
     (case callLogseqApi e calls ''logseq.Editor.appendBlockInPage'' [JStr pageName, JStr line] of
        (calls', Inl err) \<Rightarrow> (calls', Inl err)
      | (calls', Inr block) \<Rightarrow> append_blocks e calls' pageName lines)"

text \<open>The name of the journal page that the target stands for.\<close>

definition journal_page_name :: "env \<Rightarrow> string \<Rightarrow> string" where
  "journal_page_name e target =
     (if target = ''today'' then formatJournalDate (time_zone e) (clock e)
      else if target = ''yesterday''
      then formatJournalDate (time_zone e)
             (setDate (time_zone e) (clock e) (getDate (time_zone e) (clock e) - 1))
      else (case parse_date e target of
              Some date \<Rightarrow> formatJournalDate (time_zone e) date
            | None \<Rightarrow> target))"

text \<open>
  The case \<open>append_to_journal\<close> of the \<open>switch\<close> in the body of \<open>logseq_write\<close>, up to the
  \<open>return\<close> of the body: the log of the calls, and the text that the body returns or
  the exception that it throws.  The handler is \<open>logseq_write\<close> of this outcome.
\<close>

definition append_to_journal ::
  "env \<Rightarrow> string \<Rightarrow> string option \<Rightarrow> call list \<times> (error + string)" where
  "append_to_journal e target content =
     (case nonempty content of
        None \<Rightarrow> ([], Inr ''Error: content is required for append_to_journal'')
      | Some text \<Rightarrow>
          (let journalPageName = journal_page_name e target;
               lines = filter (\<lambda>l. trim l \<noteq> []) (split_lines text)
           in and_then (callLogseqApi e [] ''logseq.Editor.getPage'' [JStr journalPageName])
                (\<lambda>calls page.
                   and_then
                     (if \<not> truthy page
                      then callLogseqApi e calls ''logseq.Editor.createPage''
                             [JStr journalPageName, JObj [(''journal?'', JBool True)]]
                      else (calls, Inr page))
                     (\<lambda>calls created.
                        and_then (append_blocks e calls journalPageName lines)
                          (\<lambda>calls done.
                             (calls,
                              Inr (''Added '' @ show_int (int (length lines))
                                   @ '' block(s) to journal \"'' @ journalPageName @ ''\".'')))))))"

text \<open>The requests of a log, without their answers.\<close>

definition requests :: "call list \<Rightarrow> (string \<times> jsval list) list" where
  "requests calls = map (\<lambda>c. (fst c, fst (snd c))) calls"

text \<open>
  The name of a journal page as the specification words it, from the year, the month
  (0 to 11) and the day of the month: the short name of the month in lower case, the
  day as an ordinal (\<open>1st\<close>, \<open>2nd\<close>, \<open>3rd\<close>, \<open>4th\<close>, ..., \<open>11th\<close>, \<open>12th\<close>, \<open>13th\<close>, ...,
  \<open>21st\<close>, \<open>22nd\<close>, \<open>23rd\<close>, ..., \<open>31st\<close>), a comma and the year.  \<open>todays_journal\<close> is
  the name for the local date of the current instant.
\<close>

definition ordinal :: "int \<Rightarrow> string" where
  "ordinal day =
     show_int day
     @ (if day \<in> set [1, 21, 31] then ''st''
        else if day \<in> set [2, 22] then ''nd''
        else if day \<in> set [3, 23] then ''rd''
        else ''th'')"

definition journal_name :: "int \<Rightarrow> int \<Rightarrow> int \<Rightarrow> string" where
  "journal_name year month day =
     [''jan'', ''feb'', ''mar'', ''apr'', ''may'', ''jun'', ''jul'', ''aug'', ''sep'', ''oct'',
      ''nov'', ''dec''] ! nat month
     @ '' '' @ ordinal day @ '', '' @ show_int year"

definition todays_journal :: "env \<Rightarrow> string" where
  "todays_journal e =
     (let today = LocalTime (time_zone e) (clock e)
      in journal_name (YearFromTime today) (MonthFromTime today) (DateFromTime today))"

lemma journal_name_examples:
  "journal_name 2025 2 14 = ''mar 14th, 2025''"
  "journal_name 2025 3 1 = ''apr 1st, 2025''"
  "journal_name 2024 10 22 = ''nov 22nd, 2024''"
  "journal_name 2026 0 3 = ''jan 3rd, 2026''"
  "journal_name 2025 11 11 = ''dec 11th, 2025''"
  by (simp_all add: journal_name_def ordinal_def show_int_def digits.simps digit_char_def)

lemma day_cases:
  "1 \<le> (d::int) \<Longrightarrow> d \<le> 31 \<Longrightarrow>
   d = 1 \<or> d = 2 \<or> d = 3 \<or> d = 4 \<or> d = 5 \<or> d = 6 \<or> d = 7 \<or> d = 8 \<or> d = 9 \<or> d = 10
     \<or> d = 11 \<or> d = 12 \<or> d = 13 \<or> d = 14 \<or> d = 15 \<or> d = 16 \<or> d = 17 \<or> d = 18 \<or> d = 19
     \<or> d = 20 \<or> d = 21 \<or> d = 22 \<or> d = 23 \<or> d = 24 \<or> d = 25 \<or> d = 26 \<or> d = 27 \<or> d = 28
     \<or> d = 29 \<or> d = 30 \<or> d = 31"
  by arith

lemma ordinal_suffix:
  assumes "1 \<le> d" "d \<le> 31"
  shows "show_int d
      @ (if 11 \<le> d \<and> d \<le> 13 then ''th''
         else [''th'', ''st'', ''nd'', ''rd'', ''th'', ''th'', ''th'', ''th'', ''th'', ''th'']
                ! nat (d mod 10))
    = ordinal d"
  using day_cases [OF assms] by (elim disjE) (simp_all add: ordinal_def)

lemma month_short_lower:
  assumes "0 \<le> m" "m \<le> 11"
  shows "toLowerCase (month_short m)
    = [''jan'', ''feb'', ''mar'', ''apr'', ''may'', ''jun'', ''jul'', ''aug'', ''sep'', ''oct'',
       ''nov'', ''dec''] ! nat m"
  using month_cases [OF assms]
  by (elim disjE) (simp_all add: month_short_def toLowerCase_def lower_char_def case_table_def)

text \<open>\<open>formatJournalDate\<close> writes a date as the specification words it.\<close>

lemma formatJournalDate_journal_name:
  "formatJournalDate z t
     = journal_name (YearFromTime (LocalTime z t)) (MonthFromTime (LocalTime z t))
         (DateFromTime (LocalTime z t))"
  using ordinal_suffix [OF DateFromTime_ge_1 DateFromTime_le_31, of "LocalTime z t"]
    month_short_lower [OF MonthFromTime_range, of "LocalTime z t"]
  by (simp add: formatJournalDate_def journal_name_def Let_def)

lemma split_two_lines:
  "filter (\<lambda>l. trim l \<noteq> []) (split_lines ''buy milk\<newline>call mom'') = [''buy milk'', ''call mom'']"
  by (simp add: trim_def is_space_def)

lemma append_blocks_answered:
  assumes "\<And>calls method args. \<exists>v. answer_body (remote e calls method args) = Some v"
  shows "\<exists>calls'. append_blocks e calls pageName lines = (calls', Inr ())
    \<and> requests calls'
      = requests calls
        @ map (\<lambda>line. (''logseq.Editor.appendBlockInPage'', [JStr pageName, JStr line])) lines"
proof (induction lines arbitrary: calls)
  case Nil
  show ?case by simp
next
  case (Cons line lines)
  let ?m = "''logseq.Editor.appendBlockInPage''" and ?a = "[JStr pageName, JStr line]"
  from assms obtain v where "answer_body (remote e calls ?m ?a) = Some v" by blast
  from callLogseqApi_answer [OF this]
  have call: "callLogseqApi e calls ?m ?a = (calls @ [(?m, ?a, remote e calls ?m ?a)], Inr v)" .
  from Cons [of "calls @ [(?m, ?a, remote e calls ?m ?a)]"] obtain calls'
    where "append_blocks e (calls @ [(?m, ?a, remote e calls ?m ?a)]) pageName lines = (calls', Inr ())"
      and "requests calls' = requests (calls @ [(?m, ?a, remote e calls ?m ?a)])
        @ map (\<lambda>line. (''logseq.Editor.appendBlockInPage'', [JStr pageName, JStr line])) lines"
    by blast
  with call show ?case by (simp add: requests_def)
qed

text \<open>
  Claim C5: \<open>write(append_to_journal, 'today', 'buy milk\ncall mom')\<close>, against a remote
  that answers every call and that has no page named for today's date (its answer to
  \<open>getPage\<close> is falsy), first asks for the page, then creates it with the journal flag
  set, then appends exactly two blocks, one call for each line and in order, and returns
  the text \<open>Added 2 block(s) to journal "<name>".\<close> where the name is today's local date
  written as the short month in lower case, the day as an ordinal, and the year.
\<close>

theorem append_to_journal_today:
  assumes "\<And>calls method args. \<exists>v. answer_body (remote e calls method args) = Some v"
    and "answer_body (remote e [] ''logseq.Editor.getPage'' [JStr (todays_journal e)])
      = Some page"
    and "\<not> truthy page"
  shows "requests (fst (logseq_write
             (append_to_journal e ''today'' (Some ''buy milk\<newline>call mom''))))
      = [(''logseq.Editor.getPage'', [JStr (todays_journal e)]),
         (''logseq.Editor.createPage'',
            [JStr (todays_journal e), JObj [(''journal?'', JBool True)]]),
         (''logseq.Editor.appendBlockInPage'', [JStr (todays_journal e), JStr ''buy milk'']),
         (''logseq.Editor.appendBlockInPage'', [JStr (todays_journal e), JStr ''call mom''])]
    \<and> snd (logseq_write (append_to_journal e ''today'' (Some ''buy milk\<newline>call mom'')))
      = Inr (''Added 2 block(s) to journal \"'' @ todays_journal e @ ''\".'')"
proof -
  let ?name = "todays_journal e"
  let ?get = "(''logseq.Editor.getPage'', [JStr ?name],
      remote e [] ''logseq.Editor.getPage'' [JStr ?name])"
  let ?args = "[JStr ?name, JObj [(''journal?'', JBool True)]]"
  let ?create = "(''logseq.Editor.createPage'', ?args,
      remote e [?get] ''logseq.Editor.createPage'' ?args)"
  have get: "callLogseqApi e [] ''logseq.Editor.getPage'' [JStr ?name] = ([?get], Inr page)"
    using callLogseqApi_answer [OF assms(2)] by simp
  from assms(1) obtain created
    where "answer_body (remote e [?get] ''logseq.Editor.createPage'' ?args) = Some created"
    by blast
  from callLogseqApi_answer [OF this]
  have create: "callLogseqApi e [?get] ''logseq.Editor.createPage'' ?args
      = ([?get, ?create], Inr created)"
    by simp
  from append_blocks_answered [OF assms(1), of "[?get, ?create]" ?name "[''buy milk'', ''call mom'']"]
  obtain calls' where blocks:
    "append_blocks e [?get, ?create] ?name [''buy milk'', ''call mom''] = (calls', Inr ())"
    "requests calls' = requests [?get, ?create]
       @ [(''logseq.Editor.appendBlockInPage'', [JStr ?name, JStr ''buy milk'']),
          (''logseq.Editor.appendBlockInPage'', [JStr ?name, JStr ''call mom''])]"
    by auto
  have two: "show_int 2 = ''2''" by (simp add: show_int_def digits.simps digit_char_def)
  have "append_to_journal e ''today'' (Some ''buy milk\<newline>call mom'')
      = (calls', Inr (''Added 2 block(s) to journal \"'' @ ?name @ ''\".''))"
  proof -
    have content: "nonempty (Some ''buy milk\<newline>call mom'') = Some ''buy milk\<newline>call mom''"
      by (simp add: nonempty_def)
    have page_name: "journal_page_name e ''today'' = ?name"
      by (simp add: journal_page_name_def formatJournalDate_journal_name todays_journal_def
          Let_def)
    show ?thesis
      using assms(3)
      by (simp add: append_to_journal_def content page_name split_two_lines get create blocks(1)
          and_then_def two Let_def
          del: split_lines.simps append_blocks.simps)
  qed
  with blocks(2) show ?thesis by (simp add: requests_def logseq_write_def try_catch_def)
qed

text \<open>At the instant 2025-03-14T00:00:00.123Z, which is 02:00:00.123 of 14 March 2025 in
  the local time of the zone, against a remote that answers every call with \<open>null\<close>.\<close>

lemma todays_journal_example: "todays_journal (answering_env JNull) = ''mar 14th, 2025''"
proof -
  have "LocalTime spring_forward 1741910400123 = 1741917600123"
    by (simp add: LocalTime_def spring_forward_def)
  moreover have "MonthFromTime 1741917600123 = 2" "DateFromTime 1741917600123 = 14"
    "YearFromTime 1741917600123 = 2025"
    by code_simp+
  ultimately show ?thesis
    by (simp add: todays_journal_def answering_env_def journal_name_examples)
qed

theorem append_to_journal_today_witness:
  "\<not> truthy JNull
   \<and> requests (fst (logseq_write (append_to_journal (answering_env JNull) ''today''
        (Some ''buy milk\<newline>call mom''))))
      = [(''logseq.Editor.getPage'', [JStr ''mar 14th, 2025'']),
         (''logseq.Editor.createPage'',
            [JStr ''mar 14th, 2025'', JObj [(''journal?'', JBool True)]]),
         (''logseq.Editor.appendBlockInPage'', [JStr ''mar 14th, 2025'', JStr ''buy milk'']),
         (''logseq.Editor.appendBlockInPage'', [JStr ''mar 14th, 2025'', JStr ''call mom''])]
   \<and> snd (logseq_write (append_to_journal (answering_env JNull) ''today''
        (Some ''buy milk\<newline>call mom'')))
      = Inr ''Added 2 block(s) to journal \"mar 14th, 2025\".''"
proof -
  have answers: "\<And>calls method args.
      \<exists>v. answer_body (remote (answering_env JNull) calls method args) = Some v"
    by (simp add: answering_env_def answer_body_def)
  have page: "answer_body (remote (answering_env JNull) [] ''logseq.Editor.getPage''
      [JStr (todays_journal (answering_env JNull))]) = Some JNull"
    by (simp add: answering_env_def answer_body_def)
  have absent: "\<not> truthy JNull" by simp
  from append_to_journal_today [OF answers page absent] show ?thesis
    by (simp add: todays_journal_example)
qed

text \<open>
  The boundary of \<open>logseq_write\<close> at this operation: against a remote that answers every
  call with 401, the first call of \<open>append_to_journal\<close> throws, and the handler returns
  the text \<open>Write error:\<close> followed by the authentication guidance.
\<close>

lemma append_to_journal_unauthorized:
  "logseq_write (append_to_journal refusing_env ''today'' (Some ''buy milk''))
     = ([(''logseq.Editor.getPage'', [JStr (todays_journal refusing_env)],
          Response 401 ''Unauthorized'' None)],
        Inr (''Write error: '' @ unauthorized_message ''http://127.0.0.1:12315/api''))"
proof -
  have refuses: "remote refusing_env calls name args = Response 401 ''Unauthorized'' None"
    for calls name args
    by (simp add: refusing_env_def)
  have url: "api_url refusing_env = ''http://127.0.0.1:12315/api''"
    by (simp add: refusing_env_def)
  have "callLogseqApi refusing_env [] ''logseq.Editor.getPage''
      [JStr (todays_journal refusing_env)]
      = ([(''logseq.Editor.getPage'', [JStr (todays_journal refusing_env)],
           Response 401 ''Unauthorized'' None)],
         Inl (Error (unauthorized_message ''http://127.0.0.1:12315/api'')))"
    by (simp add: callLogseqApi_def refuses url Let_def)
  moreover have "journal_page_name refusing_env ''today'' = todays_journal refusing_env"
    by (simp add: journal_page_name_def formatJournalDate_journal_name todays_journal_def
        Let_def)
  ultimately show ?thesis
    by (simp add: logseq_write_def try_catch_def error_text_def append_to_journal_def
        nonempty_def and_then_def Let_def del: split_lines.simps)
qed

end
